theory Spec2Isabelle
  imports Main "HOL-Library.Sublist"
begin

section \<open>Python strings\<close>

text \<open>
  A Python \<^verbatim>\<open>str\<close> is modelled as a \<^typ>\<open>string\<close>, one \<^typ>\<open>char\<close> per character of the
  text, so that \<^const>\<open>length\<close>, \<^const>\<open>take\<close> and \<^const>\<open>drop\<close> are \<^verbatim>\<open>len\<close> and the slices
  \<^verbatim>\<open>s[:n]\<close>, \<^verbatim>\<open>s[n:]\<close>. This covers the characters with code points below 256. The
  decorative glyphs of the fixed templates lie outside that range; they are kept as the
  byte sequences of the source file, and no property below depends on them.
\<close>

definition newline :: char where
  "newline = CHR 0x0A"

text \<open>\<^verbatim>\<open>s.startswith(p)\<close>\<close>

fun startswith :: "string \<Rightarrow> string \<Rightarrow> bool" where
  "startswith [] s = True"
| "startswith (p # ps) [] = False"
| "startswith (p # ps) (c # cs) = (p = c \<and> startswith ps cs)"

text \<open>\<^verbatim>\<open>sub in s\<close>: \<^verbatim>\<open>sub\<close> occurs somewhere in \<^verbatim>\<open>s\<close> as a contiguous run.\<close>

fun contains :: "string \<Rightarrow> string \<Rightarrow> bool" where
  "contains sub [] = (sub = [])"
| "contains sub (c # cs) = (startswith sub (c # cs) \<or> contains sub cs)"

text \<open>
  \<^verbatim>\<open>s.lower()\<close>: the capital letters A to Z, and those of the Latin-1 block (code points
  192 to 222 except the multiplication sign 215), move up by 32; every other character
  below 256 is its own lower case.
\<close>

definition lower_char :: "char \<Rightarrow> char" where
  "lower_char c =
     (let n = (of_char c :: nat)
      in if (65 \<le> n \<and> n \<le> 90) \<or> (192 \<le> n \<and> n \<le> 222 \<and> n \<noteq> 215)
         then char_of (n + 32) else c)"

definition lower :: "string \<Rightarrow> string" where
  "lower s = map lower_char s"

text \<open>
  \<^verbatim>\<open>s.strip()\<close> removes leading and trailing whitespace: the characters 9 to 13, 28 to 32,
  133 and 160.
\<close>

definition isspace :: "char \<Rightarrow> bool" where
  "isspace c =
     (let n = (of_char c :: nat)
      in (9 \<le> n \<and> n \<le> 13) \<or> (28 \<le> n \<and> n \<le> 32) \<or> n = 133 \<or> n = 160)"

definition strip :: "string \<Rightarrow> string" where
  "strip s = rev (dropWhile isspace (rev (dropWhile isspace s)))"

text \<open>\<^verbatim>\<open>sep.join(xs)\<close>\<close>

fun join :: "string \<Rightarrow> string list \<Rightarrow> string" where
  "join sep [] = []"
| "join sep [x] = x"
| "join sep (x # y # ys) = x @ sep @ join sep (y # ys)"

text \<open>
  \<^verbatim>\<open>s.replace(old, new)\<close> for a non-empty \<^verbatim>\<open>old\<close>: the occurrences are found from left to
  right and do not overlap. \<^verbatim>\<open>re.sub\<close> with a pattern that is a literal text does the same.
  The source only replaces non-empty literals.
\<close>

fun replace :: "string \<Rightarrow> string \<Rightarrow> string \<Rightarrow> string" where
  "replace (p # ps) new [] = []"
| "replace (p # ps) new (c # cs) =
     (if startswith (p # ps) (c # cs)
      then new @ replace (p # ps) new (drop (length ps) cs)
      else c # replace (p # ps) new cs)"
| "replace [] new s = s"

text \<open>The lines of a text: the pieces between its newline characters.\<close>

fun split_lines :: "string \<Rightarrow> string list" where
  "split_lines [] = [[]]"
| "split_lines (c # cs) =
     (if c = newline then [] # split_lines cs
      else (case split_lines cs of
              [] \<Rightarrow> [[c]]
            | l # ls \<Rightarrow> (c # l) # ls))"

section \<open>The renderer: \<^verbatim>\<open>convert_markdown_to_html\<close>\<close>

text \<open>
  \<^verbatim>\<open>re.sub(r'^### (.+)$', r'<h3>\1</h3>', text, flags=re.MULTILINE)\<close>. With
  \<^verbatim>\<open>re.MULTILINE\<close> the anchors match at the start and at the end of every line, and the
  dot matches every character but the newline: a line is rewritten when it starts with
  the marker and at least one character follows, and the group is the rest of the line.
\<close>

definition header_line :: "string \<Rightarrow> string \<Rightarrow> string \<Rightarrow> string" where
  "header_line marker tag line =
     (if startswith marker line \<and> length marker < length line
      then ''<'' @ tag @ ''>'' @ drop (length marker) line @ ''</'' @ tag @ ''>''
      else line)"

definition sub_header :: "string \<Rightarrow> string \<Rightarrow> string \<Rightarrow> string" where
  "sub_header marker tag text = join [newline] (map (header_line marker tag) (split_lines text))"

text \<open>
  \<^verbatim>\<open>re.sub(r'\*\*(.+?)\*\*', r'<strong>\1</strong>', text)\<close> and the same with one asterisk.
  At a position where the delimiter stands, the lazy group takes one character that is
  not a newline and then as few more as possible until the delimiter stands again; the
  group never crosses a newline. \<open>lazy_group d acc s\<close> has read the group \<open>acc\<close> and looks
  at \<open>s\<close>; it returns the group and the text after the closing delimiter.
\<close>

fun lazy_group :: "string \<Rightarrow> string \<Rightarrow> string \<Rightarrow> (string \<times> string) option" where
  "lazy_group d acc [] = (if d = [] then Some (acc, []) else None)"
| "lazy_group d acc (c # cs) =
     (if startswith d (c # cs) then Some (acc, drop (length d) (c # cs))
      else if c = newline then None
      else lazy_group d (acc @ [c]) cs)"

definition match_emph :: "string \<Rightarrow> string \<Rightarrow> (string \<times> string) option" where
  "match_emph d s =
     (if startswith d s
      then (case drop (length d) s of
              [] \<Rightarrow> None
            | c # cs \<Rightarrow> if c = newline then None else lazy_group d [c] cs)
      else None)"

lemma lazy_group_length:
  "lazy_group d acc s = Some (g, r) \<Longrightarrow> length r \<le> length s"
proof (induction s arbitrary: acc)
  case Nil
  then show ?case by (simp split: if_splits)
next
  case (Cons c cs)
  show ?case
  proof (cases "startswith d (c # cs)")
    case True
    with Cons.prems show ?thesis by auto
  next
    case False
    with Cons.prems have "lazy_group d (acc @ [c]) cs = Some (g, r)"
      by (simp split: if_splits)
    then have "length r \<le> length cs"
      by (rule Cons.IH)
    then show ?thesis by simp
  qed
qed

lemma match_emph_length:
  "match_emph d s = Some (g, r) \<Longrightarrow> length r < length s"
proof -
  assume m: "match_emph d s = Some (g, r)"
  then obtain c cs where dr: "drop (length d) s = c # cs" and lg: "lazy_group d [c] cs = Some (g, r)"
    by (auto simp: match_emph_def split: if_splits list.splits)
  have "length r \<le> length cs"
    using lg by (rule lazy_group_length)
  moreover have "length cs < length s"
  proof -
    have "length (drop (length d) s) = Suc (length cs)"
      using dr by simp
    then show ?thesis by simp
  qed
  ultimately show ?thesis by simp
qed

text \<open>
  The substitution scans the text from the left; after a match it goes on behind the
  closing delimiter, and the replacement is not scanned again.
\<close>

function sub_emph :: "string \<Rightarrow> string \<Rightarrow> string \<Rightarrow> string" where
  "sub_emph d tag [] = []"
| "sub_emph d tag (c # cs) =
     (case match_emph d (c # cs) of
        Some (g, rest) \<Rightarrow> ''<'' @ tag @ ''>'' @ g @ ''</'' @ tag @ ''>'' @ sub_emph d tag rest
      | None \<Rightarrow> c # sub_emph d tag cs)"
  by pat_completeness auto
termination
  by (relation "measure (\<lambda>(d, tag, s). length s)") (auto dest: match_emph_length)

text \<open>
  \<^verbatim>\<open>convert_markdown_to_html\<close>, statement by statement: the three substitutions for the
  headers, the substitution for bold text and then the one for italic text, the line
  breaks and the paragraphs, and the removal of the empty paragraphs.
\<close>

definition convert_headers :: "string \<Rightarrow> string" where
  "convert_headers text0 =
     (let text1 = sub_header ''### '' ''h3'' text0;
          text2 = sub_header ''## '' ''h2'' text1;
          text3 = sub_header ''# '' ''h1'' text2
      in text3)"

definition convert_emphasis :: "string \<Rightarrow> string" where
  "convert_emphasis text0 =
     (let text1 = sub_emph ''**'' ''strong'' text0;
          text2 = sub_emph ''*'' ''em'' text1
      in text2)"

definition convert_paragraphs :: "string \<Rightarrow> string" where
  "convert_paragraphs text0 =
     (let text1 = replace [newline] ''<br>'' text0;
          text2 = replace ''<br><br>'' ''</p><p>'' text1;
          text3 = ''<p>'' @ text2 @ ''</p>''
      in text3)"

definition clean_up :: "string \<Rightarrow> string" where
  "clean_up text0 =
     (let text1 = replace ''<p></p>'' [] text0;
          text2 = replace ''<p><br></p>'' [] text1
      in text2)"

definition convert_markdown_to_html :: "string \<Rightarrow> string" where
  "convert_markdown_to_html text =
     clean_up (convert_paragraphs (convert_emphasis (convert_headers text)))"

text \<open>How often a text occurs in another, counted at every position.\<close>

fun occurrences :: "string \<Rightarrow> string \<Rightarrow> nat" where
  "occurrences p [] = 0"
| "occurrences p (c # cs) = (if startswith p (c # cs) then 1 else 0) + occurrences p cs"

section \<open>Articles and the fallback summary: \<^verbatim>\<open>create_fallback_summary\<close>\<close>

text \<open>An article is the dictionary with the keys \<^verbatim>\<open>'title'\<close>, \<^verbatim>\<open>'url'\<close> and \<^verbatim>\<open>'content'\<close>.\<close>

record article =
  title :: string
  url :: string
  content :: string

text \<open>The glyphs of the summary template, as the bytes of the source file.\<close>

definition glyph_sun :: string where
  "glyph_sun = [CHR 0xE2, CHR 0x80, CHR 0x9A, CHR 0xC3, CHR 0xB2, CHR 0xC3, CHR 0x84,
     CHR 0xC3, CHR 0x94, CHR 0xE2, CHR 0x88, CHR 0x8F, CHR 0xC3, CHR 0xA8]"

definition glyph_paper :: string where
  "glyph_paper = [CHR 0xEF, CHR 0xA3, CHR 0xBF, CHR 0xC3, CHR 0xBC, CHR 0xC3, CHR 0xAC,
     CHR 0xE2, CHR 0x88, CHR 0x9E]"

definition glyph_label :: string where
  "glyph_label = [CHR 0xEF, CHR 0xA3, CHR 0xBF, CHR 0xC3, CHR 0xBC, CHR 0xC3, CHR 0xA8,
     CHR 0xE2, CHR 0x88, CHR 0x91, CHR 0xC3, CHR 0x94, CHR 0xE2, CHR 0x88, CHR 0x8F,
     CHR 0xC3, CHR 0xA8]"

definition glyph_bullet :: string where
  "glyph_bullet = [CHR 0xE2, CHR 0x80, CHR 0x9A, CHR 0xC3, CHR 0x84, CHR 0xC2, CHR 0xA2]"

definition glyph_city :: string where
  "glyph_city = [CHR 0xEF, CHR 0xA3, CHR 0xBF, CHR 0xC3, CHR 0xBC, CHR 0xC3, CHR 0xA5,
     CHR 0xC3, CHR 0x9C]"

text \<open>
  The opening of the summary; \<open>today\<close> is \<^verbatim>\<open>datetime.now().strftime("%B %d, %Y")\<close>.
\<close>

definition fallback_header :: "string \<Rightarrow> string" where
  "fallback_header today =
     ''Good morning, Columbus! '' @ glyph_sun @ ''\<newline>\<newline>'' @
     ''While our AI summarizer is taking a coffee break, here's what's happening in our city today ('' @
     today @ ''):\<newline>\<newline>'' @
     glyph_paper @ '' <strong>Top Stories from The Columbus Dispatch:</strong>\<newline>\<newline>''"

definition fallback_footer :: string where
  "fallback_footer =
     ''Stay informed, stay connected, and have a wonderful day in Columbus! '' @ glyph_city @
     ''<br><br>\<newline>\<newline>Check out the full articles below for all the details.''"

text \<open>
  The dictionary \<^verbatim>\<open>categories\<close>: its four keys in the order of insertion, which is the
  order \<^verbatim>\<open>categories.items()\<close> walks through, each with the list of its titles.
\<close>

type_synonym categories = "(string \<times> string list) list"

definition empty_categories :: categories where
  "empty_categories = [(''Local News'', []), (''Sports'', []), (''Business'', []), (''Other'', [])]"

text \<open>\<^verbatim>\<open>categories[key].append(t)\<close>\<close>

definition append_to :: "string \<Rightarrow> string \<Rightarrow> categories \<Rightarrow> categories" where
  "append_to key t cats = map (\<lambda>(k, ts). if k = key then (k, ts @ [t]) else (k, ts)) cats"

definition local_words :: "string list" where
  "local_words = [''columbus'', ''ohio'', ''local'', ''city'', ''county'']"

definition sports_words :: "string list" where
  "sports_words = [''sports'', ''game'', ''team'', ''player'', ''score'']"

definition business_words :: "string list" where
  "business_words = [''business'', ''economy'', ''market'', ''company'']"

text \<open>\<^verbatim>\<open>any(word in title_lower for word in words)\<close>\<close>

definition any_word_in :: "string list \<Rightarrow> string \<Rightarrow> bool" where
  "any_word_in words title_lower = list_ex (\<lambda>word. contains word title_lower) words"

text \<open>The chain of \<^verbatim>\<open>if\<close> and \<^verbatim>\<open>elif\<close> in the loop: the key the title is appended to.\<close>

definition category_of :: "string \<Rightarrow> string" where
  "category_of t =
     (let title_lower = lower t
      in if any_word_in local_words title_lower then ''Local News''
         else if any_word_in sports_words title_lower then ''Sports''
         else if any_word_in business_words title_lower then ''Business''
         else ''Other'')"

text \<open>The first loop, over \<^verbatim>\<open>articles[:8]\<close>.\<close>

definition group_articles :: "article list \<Rightarrow> categories" where
  "group_articles articles =
     foldl (\<lambda>cats a. append_to (category_of (title a)) (title a) cats)
       empty_categories (take 8 articles)"

text \<open>The second loop, over the items of the dictionary, with its inner loop over \<^verbatim>\<open>titles[:3]\<close>.\<close>

definition add_titles :: "string \<Rightarrow> string list \<Rightarrow> string" where
  "add_titles summary titles =
     foldl (\<lambda>summary t. summary @ glyph_bullet @ '' '' @ t @ ''<br>\<newline>'') summary (take 3 titles)"

definition add_category :: "string \<Rightarrow> string \<times> string list \<Rightarrow> string" where
  "add_category summary item =
     (case item of (category, titles) \<Rightarrow>
        if titles \<noteq> []
        then add_titles (summary @ ''\<newline>'' @ glyph_label @ '' <strong>'' @ category @
                           '':</strong><br>\<newline>'') titles @ ''<br>\<newline>''
        else summary)"

definition create_fallback_summary :: "string \<Rightarrow> article list \<Rightarrow> string" where
  "create_fallback_summary today articles =
     foldl add_category (fallback_header today) (group_articles articles) @ fallback_footer"

text \<open>
  The statement of the categories in the words of the specification: a table of
  categories with their keywords in the order of priority, the first category with a
  keyword that occurs in the lower-cased title, and \<^verbatim>\<open>Other\<close> when there is none.
\<close>

definition priority_table :: "(string \<times> string list) list" where
  "priority_table =
     [(''Local News'', [''columbus'', ''ohio'', ''local'', ''city'', ''county'']),
      (''Sports'', [''sports'', ''game'', ''team'', ''player'', ''score'']),
      (''Business'', [''business'', ''economy'', ''market'', ''company''])]"

definition first_matching_category :: "string \<Rightarrow> string" where
  "first_matching_category t =
     (case find (\<lambda>(c, words). list_ex (\<lambda>w. contains w (lower t)) words) priority_table of
        Some (c, words) \<Rightarrow> c
      | None \<Rightarrow> ''Other'')"

definition category_order :: "string list" where
  "category_order = [''Local News'', ''Sports'', ''Business'', ''Other'']"

text \<open>The titles of the first eight articles that the table assigns to a category.\<close>

definition assigned :: "string \<Rightarrow> article list \<Rightarrow> string list" where
  "assigned c articles = filter (\<lambda>t. first_matching_category t = c) (map title (take 8 articles))"

text \<open>The section of a category: its label, a line for each listed title, and a break.\<close>

definition section_text :: "string \<Rightarrow> string list \<Rightarrow> string" where
  "section_text c titles =
     ''\<newline>'' @ glyph_label @ '' <strong>'' @ c @ '':</strong><br>\<newline>'' @
     concat (map (\<lambda>t. glyph_bullet @ '' '' @ t @ ''<br>\<newline>'') titles) @ ''<br>\<newline>''"

section \<open>Failures, responses and the trace of effects\<close>

text \<open>
  The exceptions the code can meet, by the \<^verbatim>\<open>except\<close> clause that catches them:
  \<^verbatim>\<open>requests.exceptions.Timeout\<close>; the other exceptions of \<^verbatim>\<open>requests\<close> (the
  \<^verbatim>\<open>HTTPError\<close> of \<^verbatim>\<open>raise_for_status\<close>, the \<^verbatim>\<open>JSONDecodeError\<close> of \<^verbatim>\<open>response.json()\<close>,
  and any other \<^verbatim>\<open>RequestException\<close> such as a connection error); and the remaining
  subclasses of \<^verbatim>\<open>Exception\<close>, of which subscripting raises three.
\<close>

datatype exn =
    Timeout
  | HTTPError
  | JSONDecodeError
  | RequestException
  | KeyError
  | IndexError
  | TypeError
  | OtherException

text \<open>
  A response of \<^verbatim>\<open>requests\<close>: its status code, and what decoding its content gives
  (\<^verbatim>\<open>BeautifulSoup(response.content, 'html.parser')\<close> for a page, \<^verbatim>\<open>response.json()\<close> for
  the chat completion): the decoded value, or the exception raised.
\<close>

record 'a response =
  status_code :: nat
  decoded :: "exn + 'a"

text \<open>
  \<^verbatim>\<open>response.raise_for_status()\<close> of the library \<^verbatim>\<open>requests\<close> raises \<^verbatim>\<open>HTTPError\<close> for the
  client errors 400 to 499 and the server errors 500 to 599, and returns for every other
  status code.
\<close>

definition raise_for_status :: "'a response \<Rightarrow> exn + unit" where
  "raise_for_status r =
     (if 400 \<le> status_code r \<and> status_code r < 600 then Inl HTTPError else Inr ())"

text \<open>Sequencing of statements that may raise: the first exception ends the block.\<close>

definition and_then :: "exn + 'a \<Rightarrow> ('a \<Rightarrow> exn + 'b) \<Rightarrow> exn + 'b" where
  "and_then r f = (case r of Inl e \<Rightarrow> Inl e | Inr x \<Rightarrow> f x)"

text \<open>
  A parsed page, as far as the code asks \<^verbatim>\<open>BeautifulSoup\<close> about it. An element is the
  list of the text nodes below it in document order; an anchor is an \<^verbatim>\<open>a\<close> element that
  has an \<^verbatim>\<open>href\<close> attribute, with the value of the attribute.
\<close>

type_synonym element = "string list"

record anchor =
  href :: string
  link_texts :: element

record soup =
  find_all_a :: "anchor list"
  select :: "string \<Rightarrow> element list"
  find_all_p :: "element list"

text \<open>
  \<^verbatim>\<open>elem.get_text(strip=True)\<close>: every text node is stripped, the empty ones are left out,
  and the rest is joined with the empty separator.
\<close>

definition get_text_strip :: "element \<Rightarrow> string" where
  "get_text_strip el = concat (filter (\<lambda>s. s \<noteq> []) (map strip el))"

text \<open>
  What a JSON document decodes to. The value of a number plays no role here. An object
  keeps its members in the order of the document; a key that occurs twice has the value
  of its last occurrence.
\<close>

datatype json =
    JNull
  | JBool bool
  | JNumber int
  | JString string
  | JArray "json list"
  | JObject "(string \<times> json) list"

text \<open>
  The effects of a run in the order they happen. A log record has its level and the fixed
  part of its message. \<open>Get url timeout\<close> is a call of \<^verbatim>\<open>requests.get\<close>, \<open>Post prompt timeout\<close>
  a call of \<^verbatim>\<open>requests.post\<close> to the chat completion endpoint with the user message
  \<open>prompt\<close>, \<open>Sleep n\<close> a call of \<^verbatim>\<open>time.sleep(n)\<close>, and \<open>SendEmail subject html\<close> a call
  of \<^verbatim>\<open>resend.Emails.send\<close>.
\<close>

datatype level = INFO | WARNING | ERROR

datatype event =
    Log level string
  | Get string nat
  | Post string nat
  | Sleep nat
  | SendEmail string string

text \<open>
  The world a run meets: what \<^verbatim>\<open>requests.get\<close> does for a URL, what \<^verbatim>\<open>requests.post\<close>
  does for a user message and a timeout, what \<^verbatim>\<open>resend.Emails.send\<close> does with a
  subject and a body (the identifier of the message, if the reply has one), and the two readings of
  the clock: \<^verbatim>\<open>strftime("%B %d, %Y")\<close> and \<^verbatim>\<open>strftime("%I:%M %p")\<close>.
\<close>

record world =
  http_get :: "string \<Rightarrow> exn + soup response"
  http_post :: "string \<Rightarrow> nat \<Rightarrow> exn + json response"
  emails_send :: "string \<Rightarrow> string \<Rightarrow> exn + string option"
  today :: string
  clock :: string

section \<open>Link extraction and content extraction: \<^verbatim>\<open>scrape_articles\<close>, \<^verbatim>\<open>get_article_content\<close>\<close>

definition base_url :: string where
  "base_url = ''https://www.dispatch.com''"

text \<open>
  The three statements at the head of both \<^verbatim>\<open>try\<close> blocks: \<^verbatim>\<open>requests.get\<close>,
  \<^verbatim>\<open>raise_for_status\<close> and the parser.
\<close>

definition fetch_soup :: "world \<Rightarrow> string \<Rightarrow> exn + soup" where
  "fetch_soup w u =
     and_then (http_get w u) (\<lambda>response.
     and_then (raise_for_status response) (\<lambda>_.
     decoded response))"

definition content_selectors :: "string list" where
  "content_selectors =
     [''div.article-body'', ''div.story-body'', ''div.entry-content'', ''article p'',
      ''div.content p'']"

text \<open>The loop over the selectors, which ends at the first one that selects an element.\<close>

fun first_selected :: "soup \<Rightarrow> string list \<Rightarrow> string" where
  "first_selected s [] = []"
| "first_selected s (selector # selectors) =
     (let elements = select s selector
      in if elements \<noteq> [] then join '' '' (map get_text_strip elements)
         else first_selected s selectors)"

text \<open>The body of the \<^verbatim>\<open>try\<close> block of \<^verbatim>\<open>get_article_content\<close> after the page is parsed.\<close>

definition extract_content :: "soup \<Rightarrow> string" where
  "extract_content s =
     (let content = first_selected s content_selectors;
          content = (if content = [] then join '' '' (map get_text_strip (take 10 (find_all_p s)))
                     else content)
      in take 2000 content)"

definition get_article_content :: "world \<Rightarrow> string \<Rightarrow> string \<times> event list" where
  "get_article_content w u =
     (case fetch_soup w u of
        Inr s \<Rightarrow> (extract_content s, [Get u 10])
      | Inl e \<Rightarrow> ([], [Get u 10, Log ERROR ''Error getting article content'']))"

text \<open>\<^verbatim>\<open>any(keyword in href.lower() for keyword in [...])\<close>\<close>

definition is_news_href :: "string \<Rightarrow> bool" where
  "is_news_href h =
     list_ex (\<lambda>keyword. contains keyword (lower h)) [''/story/'', ''/news/'', ''/sports/'', ''/business/'']"

definition full_url_of :: "string \<Rightarrow> string" where
  "full_url_of h = (if startswith ''/'' h then base_url @ h else h)"

text \<open>
  One round of the loop over the anchors. The state is the list \<^verbatim>\<open>articles\<close> and the set
  \<^verbatim>\<open>processed_urls\<close>; \<^verbatim>\<open>max_articles\<close> is a Python integer.
\<close>

definition link_step :: "int \<Rightarrow> article list \<times> string set \<Rightarrow> anchor \<Rightarrow> article list \<times> string set" where
  "link_step max_articles st link =
     (case st of (articles, processed_urls) \<Rightarrow>
        if href link = [] then st
        else if is_news_href (href link) then
          (let full_url = full_url_of (href link)
           in if full_url \<notin> processed_urls \<and> int (length articles) < max_articles then
                (let t = get_text_strip (link_texts link)
                 in if t \<noteq> [] \<and> 10 < length t
                    then (articles @ [\<lparr>title = t, url = full_url, content = []\<rparr>],
                          insert full_url processed_urls)
                    else st)
              else st)
        else st)"

definition extract_links :: "int \<Rightarrow> anchor list \<Rightarrow> article list" where
  "extract_links max_articles links = fst (foldl (link_step max_articles) ([], {}) links)"

text \<open>
  The second loop of \<^verbatim>\<open>scrape_articles\<close>: the content of every article is fetched, and the
  run sleeps one second after each. \<^verbatim>\<open>get_article_content\<close> catches every exception
  itself, so the \<^verbatim>\<open>except\<close> clause around the call is never entered.
\<close>

fun fill_contents :: "world \<Rightarrow> article list \<Rightarrow> article list \<times> event list" where
  "fill_contents w [] = ([], [])"
| "fill_contents w (a # as) =
     (case get_article_content w (url a) of (c, evs) \<Rightarrow>
        (case fill_contents w as of (as', evs') \<Rightarrow>
           (a\<lparr>content := c\<rparr> # as', evs @ [Sleep 1] @ evs')))"

definition scrape_articles :: "world \<Rightarrow> int \<Rightarrow> article list \<times> event list" where
  "scrape_articles w max_articles =
     (case fetch_soup w base_url of
        Inr s \<Rightarrow>
          (case fill_contents w (extract_links max_articles (find_all_a s)) of (articles, evs) \<Rightarrow>
             (articles, Get base_url 10 # evs))
      | Inl e \<Rightarrow> ([], [Get base_url 10, Log ERROR ''Error scraping articles'']))"

text \<open>
  The statement of link extraction in the words of the specification. The candidate of
  an anchor is the entry it gives when it is accepted. An anchor is accepted after the
  entries \<open>accepted\<close> when its \<^verbatim>\<open>href\<close> contains a path marker, its resolved URL is not the
  URL of an accepted entry, fewer than \<open>max_count\<close> entries are accepted, and its visible
  text, trimmed, has more than 10 characters.
\<close>

definition candidate :: "anchor \<Rightarrow> article" where
  "candidate link =
     \<lparr>title = get_text_strip (link_texts link), url = full_url_of (href link), content = []\<rparr>"

definition accepts :: "int \<Rightarrow> article list \<Rightarrow> anchor \<Rightarrow> bool" where
  "accepts max_count accepted link =
     (is_news_href (href link)
      \<and> full_url_of (href link) \<notin> set (map url accepted)
      \<and> int (length accepted) < max_count
      \<and> 10 < length (strip (get_text_strip (link_texts link))))"

text \<open>
  An absolute URL starts with a scheme and a colon; a scheme is a letter followed by
  letters, digits, plus, minus and dot (RFC 3986).
\<close>

definition is_alpha :: "char \<Rightarrow> bool" where
  "is_alpha c =
     (let n = (of_char c :: nat) in (65 \<le> n \<and> n \<le> 90) \<or> (97 \<le> n \<and> n \<le> 122))"

definition is_scheme_char :: "char \<Rightarrow> bool" where
  "is_scheme_char c =
     (let n = (of_char c :: nat)
      in is_alpha c \<or> (48 \<le> n \<and> n \<le> 57) \<or> c = CHR ''+'' \<or> c = CHR ''-'' \<or> c = CHR ''.'')"

definition is_absolute_url :: "string \<Rightarrow> bool" where
  "is_absolute_url u =
     (case u of
        [] \<Rightarrow> False
      | c # cs \<Rightarrow>
          is_alpha c \<and> (case dropWhile is_scheme_char cs of [] \<Rightarrow> False | d # ds \<Rightarrow> d = CHR '':''))"

text \<open>
  The statement of content extraction in the words of the specification: the first
  selector strategy that yields an element, and the text of the first ten paragraphs.
\<close>

definition first_strategy :: "soup \<Rightarrow> string option" where
  "first_strategy s = find (\<lambda>selector. select s selector \<noteq> []) content_selectors"

definition strategy_text :: "soup \<Rightarrow> string \<Rightarrow> string" where
  "strategy_text s selector = join '' '' (map get_text_strip (select s selector))"

definition paragraph_text :: "soup \<Rightarrow> string" where
  "paragraph_text s = join '' '' (map get_text_strip (take 10 (find_all_p s)))"

text \<open>
  A page whose article body container is there and empty, as it is when a script fills
  it in later, with one paragraph elsewhere in the document.
\<close>

definition empty_body_page :: soup where
  "empty_body_page =
     \<lparr>find_all_a = [],
      select = (\<lambda>selector. if selector = ''div.article-body'' then [[]] else []),
      find_all_p = [[''Hello world'']]\<rparr>"

section \<open>The summarizer: \<^verbatim>\<open>summarize_with_deepseek\<close>\<close>

text \<open>\<^verbatim>\<open>str(i)\<close> for a natural number: its decimal digits.\<close>

fun str_of_nat :: "nat \<Rightarrow> string" where
  "str_of_nat n =
     (if n < 10 then [char_of (48 + n)]
      else str_of_nat (n div 10) @ [char_of (48 + n mod 10)])"

declare str_of_nat.simps [simp del]

text \<open>The text built by the loop over \<^verbatim>\<open>enumerate(articles, 1)\<close>, and the user message.\<close>

definition content_for_summary :: "article list \<Rightarrow> string" where
  "content_for_summary articles =
     foldl (\<lambda>text (i, a). text @ ''\<newline>\<newline>Article '' @ str_of_nat i @ '': '' @ title a @
                              ''\<newline>'' @ take 500 (content a))
       [] (enumerate 1 articles)"

definition user_prompt :: "article list \<Rightarrow> string" where
  "user_prompt articles =
     ''Please create a warm, engaging morning summary of these Columbus Dispatch articles. '' @
     ''Group similar topics together and highlight what matters most to Columbus residents. '' @
     ''Keep it informative but uplifting:\<newline>'' @ content_for_summary articles"

text \<open>
  Subscripting a decoded JSON value, \<^verbatim>\<open>v[k]\<close>, with a text or a number. A dictionary
  raises \<^verbatim>\<open>KeyError\<close> for a key it does not have, and it has no numbers as keys; a list
  and a text raise \<^verbatim>\<open>IndexError\<close> for a number out of range and \<^verbatim>\<open>TypeError\<close> for a
  text; nothing else can be subscripted.
\<close>

datatype subscript = Name string | Index nat

fun getitem :: "json \<Rightarrow> subscript \<Rightarrow> exn + json" where
  "getitem (JObject members) (Name k) =
     (case map_of (rev members) k of Some v \<Rightarrow> Inr v | None \<Rightarrow> Inl KeyError)"
| "getitem (JObject members) (Index i) = Inl KeyError"
| "getitem (JArray xs) (Index i) = (if i < length xs then Inr (xs ! i) else Inl IndexError)"
| "getitem (JArray xs) (Name k) = Inl TypeError"
| "getitem (JString s) (Index i) = (if i < length s then Inr (JString [s ! i]) else Inl IndexError)"
| "getitem (JString s) (Name k) = Inl TypeError"
| "getitem JNull k = Inl TypeError"
| "getitem (JBool b) k = Inl TypeError"
| "getitem (JNumber n) k = Inl TypeError"

text \<open>\<^verbatim>\<open>result['choices'][0]['message']['content']\<close>\<close>

definition subscripts :: "json \<Rightarrow> exn + json" where
  "subscripts result =
     and_then (getitem result (Name ''choices'')) (\<lambda>choices.
     and_then (getitem choices (Index 0)) (\<lambda>choice.
     and_then (getitem choice (Name ''message'')) (\<lambda>message.
     getitem message (Name ''content''))))"

text \<open>
  The body of the \<^verbatim>\<open>try\<close> block after the log record: the request, the check of the
  status, the decoding, and the subscripts.
\<close>

definition chat_completion :: "world \<Rightarrow> string \<Rightarrow> nat \<Rightarrow> exn + json" where
  "chat_completion w prompt timeout =
     and_then (http_post w prompt timeout) (\<lambda>response.
     and_then (raise_for_status response) (\<lambda>_.
     and_then (decoded response) (\<lambda>result.
     subscripts result)))"

text \<open>
  The log record of the \<^verbatim>\<open>except\<close> clause that catches the exception. (The
  \<^verbatim>\<open>JSONDecodeError\<close> of \<^verbatim>\<open>requests\<close> is a \<^verbatim>\<open>RequestException\<close> since version 2.27.)
\<close>

definition failure_log :: "exn \<Rightarrow> event" where
  "failure_log e =
     (if e = Timeout then Log WARNING ''DeepSeek API timeout''
      else if e = HTTPError \<or> e = JSONDecodeError \<or> e = RequestException
      then Log ERROR ''DeepSeek API request error''
      else Log ERROR ''Unexpected error with DeepSeek API'')"

text \<open>
  The loop \<^verbatim>\<open>for attempt in range(3)\<close>, over the attempts still to make. It returns the
  summary of the first attempt that succeeds, or nothing when every attempt has failed.
  All three \<^verbatim>\<open>except\<close> clauses sleep 5 seconds unless the attempt is the last one, and go
  on with the next attempt.
\<close>

fun attempt_loop :: "world \<Rightarrow> string \<Rightarrow> nat list \<Rightarrow> json option \<times> event list" where
  "attempt_loop w prompt [] = (None, [])"
| "attempt_loop w prompt (attempt # attempts) =
     (let timeout = 30 + attempt * 15;
          started = [Log INFO ''Attempting DeepSeek API call'', Post prompt timeout]
      in case chat_completion w prompt timeout of
           Inr summary \<Rightarrow>
             (Some summary, started @ [Log INFO ''Successfully generated summary with DeepSeek API''])
         | Inl e \<Rightarrow>
             (case attempt_loop w prompt attempts of (result, evs) \<Rightarrow>
                (result, started @ [failure_log e] @ (if attempt < 2 then [Sleep 5] else []) @ evs)))"

text \<open>
  The value returned is whatever stands at \<^verbatim>\<open>content\<close> in the reply, so it is a JSON
  value; the fallback summary is a text.
\<close>

definition summarize_with_deepseek :: "world \<Rightarrow> article list \<Rightarrow> json \<times> event list" where
  "summarize_with_deepseek w articles =
     (case attempt_loop w (user_prompt articles) [0..<3] of
        (Some summary, evs) \<Rightarrow> (summary, evs)
      | (None, evs) \<Rightarrow>
          (JString (create_fallback_summary (today w) articles),
           evs @ [Log WARNING ''All DeepSeek API attempts failed, creating basic summary from titles'']))"

section \<open>The email and the entry point: \<^verbatim>\<open>create_beautiful_email\<close>, \<^verbatim>\<open>send_email\<close>, \<^verbatim>\<open>run_daily_summary\<close>\<close>

text \<open>
  The fixed text of the email template, with the date, the rendered summary, the entries
  of the articles and the time of day filled in where the source has them; and the
  subject of the message.
\<close>

definition glyph_sunrise :: string where
  "glyph_sunrise = [CHR 0xEF, CHR 0xA3, CHR 0xBF, CHR 0xC3, CHR 0xBC, CHR 0xC3, CHR 0xA5,
     CHR 0xC3, CHR 0x96]"

definition glyph_coffee :: string where
  "glyph_coffee = [CHR 0xE2, CHR 0x80, CHR 0x9A, CHR 0xC3, CHR 0xB2, CHR 0xC3, CHR 0xAF]"

definition glyph_link :: string where
  "glyph_link = [CHR 0xEF, CHR 0xA3, CHR 0xBF, CHR 0xC3, CHR 0xBC, CHR 0xC3, CHR 0xAE,
     CHR 0xC3, CHR 0xB3]"

definition glyph_heart :: string where
  "glyph_heart = [CHR 0xEF, CHR 0xA3, CHR 0xBF, CHR 0xC3, CHR 0xBC, CHR 0xC3, CHR 0xAD,
     CHR 0xC3, CHR 0xB9]"

definition email_head :: "string \<Rightarrow> string" where
  \<open>email_head date =
     ''\<newline>'' @
     ''        <!DOCTYPE html>\<newline>'' @
     ''        <html>\<newline>'' @
     ''        <head>\<newline>'' @
     ''            <meta charset="UTF-8">\<newline>'' @
     ''            <style>\<newline>'' @
     ''                body {\<newline>'' @
     ''                    font-family: 'Georgia', serif;\<newline>'' @
     ''                    line-height: 1.6;\<newline>'' @
     ''                    margin: 0;\<newline>'' @
     ''                    padding: 0;\<newline>'' @
     ''                    background-color: #f8f9fa;\<newline>'' @
     ''                }\<newline>'' @
     ''                .container {\<newline>'' @
     ''                    max-width: 600px;\<newline>'' @
     ''                    margin: 0 auto;\<newline>'' @
     ''                    background-color: white;\<newline>'' @
     ''                    box-shadow: 0 4px 8px rgba(0,0,0,0.1);\<newline>'' @
     ''                }\<newline>'' @
     ''                .header {\<newline>'' @
     ''                    background: linear-gradient(135deg, #2c3e50, #34495e);\<newline>'' @
     ''                    color: white;\<newline>'' @
     ''                    text-align: center;\<newline>'' @
     ''                    padding: 40px 20px;\<newline>'' @
     ''                }\<newline>'' @
     ''                .header h1 {\<newline>'' @
     ''                    margin: 0;\<newline>'' @
     ''                    font-size: 28px;\<newline>'' @
     ''                    font-weight: 300;\<newline>'' @
     ''                }\<newline>'' @
     ''                .date {\<newline>'' @
     ''                    font-size: 16px;\<newline>'' @
     ''                    opacity: 0.9;\<newline>'' @
     ''                    margin-top: 10px;\<newline>'' @
     ''                }\<newline>'' @
     ''                .greeting {\<newline>'' @
     ''                    background-color: #3498db;\<newline>'' @
     ''                    color: white;\<newline>'' @
     ''                    text-align: center;\<newline>'' @
     ''                    padding: 20px;\<newline>'' @
     ''                    font-size: 18px;\<newline>'' @
     ''                }\<newline>'' @
     ''                .summary {\<newline>'' @
     ''                    padding: 30px;\<newline>'' @
     ''                    background-color: #fff;\<newline>'' @
     ''                }\<newline>'' @
     ''                .summary h2 {\<newline>'' @
     ''                    color: #2c3e50;\<newline>'' @
     ''                    border-bottom: 3px solid #3498db;\<newline>'' @
     ''                    padding-bottom: 10px;\<newline>'' @
     ''                    margin-bottom: 20px;\<newline>'' @
     ''                }\<newline>'' @
     ''                .summary-content {\<newline>'' @
     ''                    font-size: 16px;\<newline>'' @
     ''                    color: #444;\<newline>'' @
     ''                    line-height: 1.8;\<newline>'' @
     ''                }\<newline>'' @
     ''                .articles-section {\<newline>'' @
     ''                    background-color: #f8f9fa;\<newline>'' @
     ''                    padding: 30px;\<newline>'' @
     ''                }\<newline>'' @
     ''                .articles-section h3 {\<newline>'' @
     ''                    color: #2c3e50;\<newline>'' @
     ''                    margin-bottom: 20px;\<newline>'' @
     ''                    font-size: 20px;\<newline>'' @
     ''                }\<newline>'' @
     ''                .article-item {\<newline>'' @
     ''                    background: white;\<newline>'' @
     ''                    margin-bottom: 15px;\<newline>'' @
     ''                    border-left: 4px solid #3498db;\<newline>'' @
     ''                    padding: 15px 20px;\<newline>'' @
     ''                    border-radius: 0 5px 5px 0;\<newline>'' @
     ''                    box-shadow: 0 2px 4px rgba(0,0,0,0.05);\<newline>'' @
     ''                }\<newline>'' @
     ''                .article-title {\<newline>'' @
     ''                    font-weight: bold;\<newline>'' @
     ''                    margin-bottom: 5px;\<newline>'' @
     ''                }\<newline>'' @
     ''                .article-title a {\<newline>'' @
     ''                    color: #2c3e50;\<newline>'' @
     ''                    text-decoration: none;\<newline>'' @
     ''                }\<newline>'' @
     ''                .article-title a:hover {\<newline>'' @
     ''                    color: #3498db;\<newline>'' @
     ''                }\<newline>'' @
     ''                .footer {\<newline>'' @
     ''                    background-color: #2c3e50;\<newline>'' @
     ''                    color: white;\<newline>'' @
     ''                    text-align: center;\<newline>'' @
     ''                    padding: 25px;\<newline>'' @
     ''                    font-size: 14px;\<newline>'' @
     ''                }\<newline>'' @
     ''                .columbus-love {\<newline>'' @
     ''                    background: linear-gradient(135deg, #e74c3c, #c0392b);\<newline>'' @
     ''                    color: white;\<newline>'' @
     ''                    text-align: center;\<newline>'' @
     ''                    padding: 20px;\<newline>'' @
     ''                    font-style: italic;\<newline>'' @
     ''                }\<newline>'' @
     ''            </style>\<newline>'' @
     ''        </head>\<newline>'' @
     ''        <body>\<newline>'' @
     ''            <div class="container">\<newline>'' @
     ''                <div class="header">\<newline>'' @
     ''                    <h1>'' @ glyph_sunrise @ '' Good Morning, Columbus!</h1>\<newline>'' @
     ''                    <div class="date">'' @
     date @
     ''</div>\<newline>'' @
     ''                </div>\<newline>'' @
     ''                \<newline>'' @
     ''                <div class="greeting">\<newline>'' @
     ''                    '' @ glyph_coffee @ '' Your daily dose of local news, served fresh\<newline>'' @
     ''                </div>\<newline>'' @
     ''                \<newline>'' @
     ''                <div class="summary">\<newline>'' @
     ''                    <h2>'' @ glyph_paper @ '' Today's Highlights</h2>\<newline>'' @
     ''                    <div class="summary-content">\<newline>'' @
     ''                        ''\<close>

definition email_middle :: string where
  \<open>email_middle =
     ''\<newline>'' @
     ''                    </div>\<newline>'' @
     ''                </div>\<newline>'' @
     ''                \<newline>'' @
     ''                <div class="articles-section">\<newline>'' @
     ''                    <h3>'' @ glyph_link @ '' Full Articles</h3>\<newline>'' @
     ''        ''\<close>

definition email_item :: "article \<Rightarrow> string" where
  \<open>email_item a =
     ''\<newline>'' @
     ''                    <div class="article-item">\<newline>'' @
     ''                        <div class="article-title">\<newline>'' @
     ''                            <a href="'' @
     url a @
     ''" target="_blank">'' @
     title a @
     ''</a>\<newline>'' @
     ''                        </div>\<newline>'' @
     ''                    </div>\<newline>'' @
     ''            ''\<close>

definition email_tail :: "string \<Rightarrow> string" where
  \<open>email_tail time =
     ''\<newline>'' @
     ''                </div>\<newline>'' @
     ''                \<newline>'' @
     ''                <div class="columbus-love">\<newline>'' @
     ''                    '' @ glyph_heart @ '' Stay connected, Columbus. Have a wonderful day!\<newline>'' @
     ''                </div>\<newline>'' @
     ''                \<newline>'' @
     ''                <div class="footer">\<newline>'' @
     ''                    <p>This summary was lovingly crafted by your personal Columbus news assistant</p>\<newline>'' @
     ''                    <p>Source: The Columbus Dispatch | Generated: '' @
     time @
     ''</p>\<newline>'' @
     ''                </div>\<newline>'' @
     ''            </div>\<newline>'' @
     ''        </body>\<newline>'' @
     ''        </html>\<newline>'' @
     ''        ''\<close>

definition email_subject :: "string \<Rightarrow> string" where
  \<open>email_subject date =
     glyph_sunrise @ '' Your Columbus Morning Brief - '' @
     date\<close>

text \<open>
  \<^verbatim>\<open>create_beautiful_email\<close>. The renderer is called on the summary while the template is
  filled in; \<^verbatim>\<open>re.sub\<close> raises \<^verbatim>\<open>TypeError\<close> for a summary that is not a text.
\<close>

definition create_beautiful_email :: "world \<Rightarrow> json \<Rightarrow> article list \<Rightarrow> exn + string" where
  "create_beautiful_email w summary articles =
     (case summary of
        JString text \<Rightarrow>
          Inr (foldl (\<lambda>html_template a. html_template @ email_item a)
                 (email_head (today w) @ convert_markdown_to_html text @ email_middle)
                 (take 8 articles)
               @ email_tail (clock w))
      | _ \<Rightarrow> Inl TypeError)"

text \<open>\<^verbatim>\<open>send_email\<close> catches and logs every exception of the mail service.\<close>

definition send_email :: "world \<Rightarrow> string \<Rightarrow> event list" where
  "send_email w html_content =
     SendEmail (email_subject (today w)) html_content #
     (case emails_send w (email_subject (today w)) html_content of
        Inr r \<Rightarrow> [Log INFO ''Email sent successfully!'']
      | Inl e \<Rightarrow> [Log ERROR ''Error sending email with Resend''])"

text \<open>
  \<^verbatim>\<open>run_daily_summary\<close>, with \<^verbatim>\<open>scrape_articles()\<close> called with its default of 10 articles.
  The result is the exception that leaves the function, if there is one, and the effects.
\<close>

definition run_daily_summary :: "world \<Rightarrow> (exn + unit) \<times> event list" where
  "run_daily_summary w =
     (case scrape_articles w 10 of (articles, scraped) \<Rightarrow>
        if articles = []
        then (Inr (),
              Log INFO ''Starting Columbus Dispatch morning summary...'' # scraped
              @ [Log WARNING ''No articles found''])
        else
          (case summarize_with_deepseek w articles of (summary, summarized) \<Rightarrow>
             (case create_beautiful_email w summary articles of
                Inl e \<Rightarrow>
                  (Inl e,
                   Log INFO ''Starting Columbus Dispatch morning summary...'' # scraped
                   @ [Log INFO ''Found articles''] @ summarized)
              | Inr html_content \<Rightarrow>
                  (Inr (),
                   Log INFO ''Starting Columbus Dispatch morning summary...'' # scraped
                   @ [Log INFO ''Found articles''] @ summarized
                   @ send_email w html_content
                   @ [Log INFO ''Daily summary completed!'']))))"

section \<open>The statements of the specification about the summarizer and the entry point\<close>

text \<open>
  The reply the endpoint is expected to give has a text or any other value at
  \<^verbatim>\<open>choices[0].message.content\<close>: \<^verbatim>\<open>choices\<close> is a member of an object, its first item an
  item of an array, and so on. \<open>reply_content\<close> is that value, if the reply has one.
\<close>

fun member :: "json \<Rightarrow> string \<Rightarrow> json option" where
  "member (JObject members) k = map_of (rev members) k"
| "member v k = None"

fun first_item :: "json \<Rightarrow> json option" where
  "first_item (JArray (x # xs)) = Some x"
| "first_item v = None"

definition reply_content :: "json \<Rightarrow> json option" where
  "reply_content reply =
     Option.bind (member reply ''choices'') (\<lambda>choices.
     Option.bind (first_item choices) (\<lambda>choice.
     Option.bind (member choice ''message'') (\<lambda>message.
     member message ''content'')))"

definition malformed :: "json response \<Rightarrow> bool" where
  "malformed r = (case decoded r of Inl e \<Rightarrow> True | Inr reply \<Rightarrow> reply_content reply = None)"

text \<open>
  A call fails, in the words of the specification: a timeout or another error of the
  request, a status that is not one of the 2xx codes, or a malformed response.
\<close>

definition call_fails :: "exn + json response \<Rightarrow> bool" where
  "call_fails outcome =
     (case outcome of
        Inl e \<Rightarrow> True
      | Inr r \<Rightarrow> \<not> (200 \<le> status_code r \<and> status_code r < 300) \<or> malformed r)"

text \<open>
  A call is treated as failed by the code: a timeout or another error of the request, a
  status that is one of the 4xx or 5xx codes, or a malformed response.
\<close>

definition call_raises :: "exn + json response \<Rightarrow> bool" where
  "call_raises outcome =
     (case outcome of
        Inl e \<Rightarrow> True
      | Inr r \<Rightarrow> (400 \<le> status_code r \<and> status_code r < 600) \<or> malformed r)"

fun is_log :: "event \<Rightarrow> bool" where
  "is_log (Log l m) = True"
| "is_log ev = False"

text \<open>The calls that only the summarizer and the email step make.\<close>

fun is_post_or_send :: "event \<Rightarrow> bool" where
  "is_post_or_send (Post prompt timeout) = True"
| "is_post_or_send (SendEmail subject html) = True"
| "is_post_or_send ev = False"

section \<open>Sample inputs\<close>

definition sample_article :: article where
  "sample_article =
     \<lparr>title = ''Ohio State wins big game'', url = ''https://www.dispatch.com/sports/ohio-state'',
      content = ''The Buckeyes won on Saturday.''\<rparr>"

definition good_reply :: json where
  "good_reply =
     JObject [(''choices'',
       JArray [JObject [(''message'',
         JObject [(''role'', JString ''assistant''), (''content'', JString ''Good morning!'')])]])]"

text \<open>A world without a network: every request raises a connection error.\<close>

definition offline_world :: world where
  "offline_world =
     \<lparr>http_get = (\<lambda>u. Inl RequestException),
      http_post = (\<lambda>prompt timeout. Inl RequestException),
      emails_send = (\<lambda>subject html. Inl RequestException),
      today = ''January 01, 2025'',
      clock = ''06:00 AM''\<rparr>"

text \<open>
  A world whose chat completion endpoint fails in a different way on every call: a
  timeout, then a server error, then a reply without choices.
\<close>

definition failing_endpoint :: "string \<Rightarrow> nat \<Rightarrow> exn + json response" where
  "failing_endpoint prompt timeout =
     (if timeout = 30 then Inl Timeout
      else if timeout = 45 then Inr \<lparr>status_code = 503, decoded = Inl JSONDecodeError\<rparr>
      else Inr \<lparr>status_code = 200, decoded = Inr (JObject [(''choices'', JArray [])])\<rparr>)"

definition failing_endpoint_world :: world where
  "failing_endpoint_world = offline_world\<lparr>http_post := failing_endpoint\<rparr>"

text \<open>
  A world whose endpoint answers every call with the status 300 (Multiple Choices),
  which \<^verbatim>\<open>requests\<close> hands to the caller as it is, and a well-formed reply.
\<close>

definition multiple_choices_world :: world where
  "multiple_choices_world =
     offline_world\<lparr>http_post := (\<lambda>prompt timeout. Inr \<lparr>status_code = 300, decoded = Inr good_reply\<rparr>)\<rparr>"

text \<open>Anchors as a front page has them.\<close>

definition story_link :: anchor where
  "story_link = \<lparr>href = ''/story/news/2025/01/01/city-council-vote'',
                  link_texts = [''  City council votes '', ''on new budget '']\<rparr>"

definition absolute_link :: anchor where
  "absolute_link = \<lparr>href = ''https://www.dispatch.com/sports/buckeyes'',
                     link_texts = [''Buckeyes prepare for the playoffs'']\<rparr>"

definition short_link :: anchor where
  "short_link = \<lparr>href = ''/news/'', link_texts = ['' News '']\<rparr>"

definition relative_link :: anchor where
  "relative_link = \<lparr>href = ''section/news/index.html'',
                     link_texts = [''Today in local news'']\<rparr>"

section \<open>Properties of the renderer\<close>

text \<open>
  C7. The renderer applied to \<^verbatim>\<open>"**Hello** *world*\n\nSecond para"\<close> wraps \<^verbatim>\<open>Hello\<close> in a
  bold element and \<^verbatim>\<open>world\<close> in an italic element, and produces exactly two paragraph
  elements, the first with the emphasis markup and the second with \<^verbatim>\<open>Second para\<close>. Bold
  text is converted before italic text: after the first of the two substitutions the
  single asterisks are still there, and the two substitutions in the other order give
  another text.
\<close>

theorem render_hello_world:
  "sub_emph ''**'' ''strong'' ''**Hello** *world*\<newline>\<newline>Second para''
     = ''<strong>Hello</strong> *world*\<newline>\<newline>Second para''
   \<and> convert_emphasis (convert_headers ''**Hello** *world*\<newline>\<newline>Second para'')
     = ''<strong>Hello</strong> <em>world</em>\<newline>\<newline>Second para''
   \<and> convert_markdown_to_html ''**Hello** *world*\<newline>\<newline>Second para''
     = ''<p><strong>Hello</strong> <em>world</em></p><p>Second para</p>''
   \<and> occurrences ''<p>'' (convert_markdown_to_html ''**Hello** *world*\<newline>\<newline>Second para'') = 2
   \<and> sub_emph ''**'' ''strong'' (sub_emph ''*'' ''em'' ''**Hello** *world*\<newline>\<newline>Second para'')
     = ''<em>*Hello</em><em> </em>world*\<newline>\<newline>Second para''"
  by code_simp

text \<open>
  C8. The renderer applied to four newline characters yields no paragraph element. The
  line breaks and the paragraph boundaries give three paragraphs, all of them empty, and
  the removal of the empty paragraphs leaves the empty text.
\<close>

theorem render_four_newlines:
  "convert_paragraphs (convert_emphasis (convert_headers ''\<newline>\<newline>\<newline>\<newline>''))
     = ''<p></p><p></p><p></p>''
   \<and> clean_up ''<p></p><p></p><p></p>'' = []
   \<and> convert_markdown_to_html ''\<newline>\<newline>\<newline>\<newline>'' = []
   \<and> occurrences ''<p>'' (convert_markdown_to_html ''\<newline>\<newline>\<newline>\<newline>'') = 0"
  by code_simp

section \<open>Properties of the fallback summary\<close>

lemma category_of_first_matching:
  "category_of t = first_matching_category t"
  by (simp add: category_of_def first_matching_category_def priority_table_def any_word_in_def
      local_words_def sports_words_def business_words_def Let_def)

lemma category_of_in_order: "category_of t \<in> set category_order"
  by (simp add: category_of_def category_order_def Let_def)

lemma append_to_order:
  "c \<in> set category_order \<Longrightarrow>
   append_to c t (map (\<lambda>k. (k, F k)) category_order)
     = map (\<lambda>k. (k, if k = c then F k @ [t] else F k)) category_order"
  by (simp add: append_to_def category_order_def)

lemma group_loop:
  "foldl (\<lambda>cats a. append_to (category_of (title a)) (title a) cats)
     (map (\<lambda>k. (k, F k)) category_order) as
   = map (\<lambda>k. (k, F k @ filter (\<lambda>t. category_of t = k) (map title as))) category_order"
proof (induction as arbitrary: F)
  case Nil
  show ?case by simp
next
  case (Cons a as)
  let ?G = "\<lambda>k. if k = category_of (title a) then F k @ [title a] else F k"
  have "append_to (category_of (title a)) (title a) (map (\<lambda>k. (k, F k)) category_order)
        = map (\<lambda>k. (k, ?G k)) category_order"
    by (rule append_to_order) (rule category_of_in_order)
  then have "foldl (\<lambda>cats a. append_to (category_of (title a)) (title a) cats)
     (map (\<lambda>k. (k, F k)) category_order) (a # as)
     = map (\<lambda>k. (k, ?G k @ filter (\<lambda>t. category_of t = k) (map title as))) category_order"
    using Cons.IH [of ?G] by simp
  also have "\<dots> = map (\<lambda>k. (k, F k @ filter (\<lambda>t. category_of t = k) (map title (a # as)))) category_order"
    by simp
  finally show ?case .
qed

lemma group_articles_assigned:
  "group_articles articles = map (\<lambda>c. (c, assigned c articles)) category_order"
proof -
  have e: "empty_categories = map (\<lambda>k. (k, (\<lambda>_. []) k)) category_order"
    by (simp add: empty_categories_def category_order_def)
  show ?thesis
    unfolding group_articles_def e group_loop assigned_def
    by (simp add: category_of_first_matching)
qed

lemma add_titles_concat:
  "add_titles summary titles
   = summary @ concat (map (\<lambda>t. glyph_bullet @ '' '' @ t @ ''<br>\<newline>'') (take 3 titles))"
proof -
  have "foldl (\<lambda>summary t. summary @ glyph_bullet @ '' '' @ t @ ''<br>\<newline>'') s ts
        = s @ concat (map (\<lambda>t. glyph_bullet @ '' '' @ t @ ''<br>\<newline>'') ts)" for s ts
    by (induction ts arbitrary: s) simp_all
  then show ?thesis by (simp add: add_titles_def)
qed

lemma add_category_section:
  "add_category summary (c, ts) = summary @ (if ts \<noteq> [] then section_text c (take 3 ts) else [])"
  by (simp add: add_category_def add_titles_concat section_text_def)

lemma add_category_loop:
  "foldl add_category summary (map (\<lambda>c. (c, F c)) cs)
   = summary @ concat (map (\<lambda>c. section_text c (take 3 (F c))) (filter (\<lambda>c. F c \<noteq> []) cs))"
  by (induction cs arbitrary: summary) (simp_all add: add_category_section)

lemma fallback_sections:
  "create_fallback_summary date articles
   = fallback_header date
     @ concat (map (\<lambda>c. section_text c (take 3 (assigned c articles)))
                (filter (\<lambda>c. assigned c articles \<noteq> []) category_order))
     @ fallback_footer"
  by (simp add: create_fallback_summary_def group_articles_assigned add_category_loop)

lemma ohio_state_groups:
  "group_articles [\<lparr>title = ''Ohio State wins big game'', url = u, content = c\<rparr>]
   = [(''Local News'', [''Ohio State wins big game'']), (''Sports'', []), (''Business'', []),
      (''Other'', [])]"
  by code_simp

lemma ohio_state_keywords:
  "contains ''ohio'' (lower ''Ohio State wins big game'')
   \<and> contains ''game'' (lower ''Ohio State wins big game'')"
  by code_simp

text \<open>
  C2. The fallback summary looks at the first 8 articles only. The loop over them sorts
  every title into the first category, in the order of priority Local News, Sports,
  Business, that has a keyword occurring in the lower-cased title, and into Other when
  none has. The summary is the header, then one section for each category that has a
  title, in the order Local News, Sports, Business, Other, with the first 3 titles of the
  category, then the footer. The title \<^verbatim>\<open>Ohio State wins big game\<close> has the keywords
  \<^verbatim>\<open>ohio\<close> and \<^verbatim>\<open>game\<close> and goes to Local News.
\<close>

theorem fallback_summary_categories:
  "group_articles articles
     = [(''Local News'', assigned ''Local News'' articles), (''Sports'', assigned ''Sports'' articles),
        (''Business'', assigned ''Business'' articles), (''Other'', assigned ''Other'' articles)]
   \<and> assigned c articles
     = filter (\<lambda>t. first_matching_category t = c) (map title (take 8 articles))
   \<and> create_fallback_summary date articles
     = fallback_header date
       @ concat (map (\<lambda>c. section_text c (take 3 (assigned c articles)))
                  (filter (\<lambda>c. assigned c articles \<noteq> [])
                     [''Local News'', ''Sports'', ''Business'', ''Other'']))
       @ fallback_footer
   \<and> contains ''ohio'' (lower ''Ohio State wins big game'')
   \<and> contains ''game'' (lower ''Ohio State wins big game'')
   \<and> group_articles [\<lparr>title = ''Ohio State wins big game'', url = u, content = body\<rparr>]
     = [(''Local News'', [''Ohio State wins big game'']), (''Sports'', []), (''Business'', []),
        (''Other'', [])]"
proof -
  have "group_articles articles
     = [(''Local News'', assigned ''Local News'' articles), (''Sports'', assigned ''Sports'' articles),
        (''Business'', assigned ''Business'' articles), (''Other'', assigned ''Other'' articles)]"
    by (simp add: group_articles_assigned category_order_def)
  moreover have "assigned c articles
     = filter (\<lambda>t. first_matching_category t = c) (map title (take 8 articles))"
    by (simp add: assigned_def)
  moreover have "create_fallback_summary date articles
     = fallback_header date
       @ concat (map (\<lambda>c. section_text c (take 3 (assigned c articles)))
                  (filter (\<lambda>c. assigned c articles \<noteq> [])
                     [''Local News'', ''Sports'', ''Business'', ''Other'']))
       @ fallback_footer"
    using fallback_sections [of date articles] by (simp only: category_order_def)
  ultimately show ?thesis
    using ohio_state_keywords ohio_state_groups [of u body] by blast
qed

lemma startswith_append: "startswith p s \<longleftrightarrow> (\<exists>post. s = p @ post)"
  by (induction p s rule: startswith.induct) auto

lemma contains_substring: "contains sub s \<longleftrightarrow> (\<exists>pre post. s = pre @ sub @ post)"
proof (induction s)
  case Nil
  show ?case by simp
next
  case (Cons c cs)
  show ?case
  proof
    assume "contains sub (c # cs)"
    then consider "startswith sub (c # cs)" | "contains sub cs" by auto
    then show "\<exists>pre post. c # cs = pre @ sub @ post"
    proof cases
      case 1
      then obtain post where "c # cs = sub @ post" by (auto simp: startswith_append)
      then have "c # cs = [] @ sub @ post" by simp
      then show ?thesis by blast
    next
      case 2
      then obtain pre post where "cs = pre @ sub @ post" using Cons.IH by blast
      then have "c # cs = (c # pre) @ sub @ post" by simp
      then show ?thesis by blast
    qed
  next
    assume "\<exists>pre post. c # cs = pre @ sub @ post"
    then obtain pre post where e: "c # cs = pre @ sub @ post" by blast
    show "contains sub (c # cs)"
    proof (cases pre)
      case Nil
      with e have "startswith sub (c # cs)" by (auto simp: startswith_append)
      then show ?thesis by simp
    next
      case (Cons x pre')
      with e have "cs = pre' @ sub @ post" by simp
      then have "contains sub cs" using Cons.IH by blast
      then show ?thesis by simp
    qed
  qed
qed

lemma any_word_in_substring:
  "any_word_in words s \<longleftrightarrow> (\<exists>w \<in> set words. \<exists>pre post. s = pre @ w @ post)"
  by (simp add: any_word_in_def list_ex_iff contains_substring)

text \<open>
  C10. The keywords are matched as parts of the lower-cased title, not as whole words:
  the category of a title is decided by which keywords occur in it anywhere, with any
  text before and after. So \<^verbatim>\<open>game\<close> inside \<^verbatim>\<open>Endgame\<close> makes a title a Sports title, and
  \<^verbatim>\<open>city\<close> inside \<^verbatim>\<open>velocity\<close> makes one a Local News title, as the word standing alone
  does.
\<close>

theorem keyword_match_is_substring:
  "category_of t =
     (if \<exists>w \<in> set local_words. \<exists>pre post. lower t = pre @ w @ post then ''Local News''
      else if \<exists>w \<in> set sports_words. \<exists>pre post. lower t = pre @ w @ post then ''Sports''
      else if \<exists>w \<in> set business_words. \<exists>pre post. lower t = pre @ w @ post then ''Business''
      else ''Other'')
   \<and> category_of ''Avengers Endgame breaks records'' = ''Sports''
   \<and> category_of ''The big game breaks records'' = ''Sports''
   \<and> category_of ''High velocity winds expected'' = ''Local News''
   \<and> category_of ''Winds expected in the city'' = ''Local News''"
proof -
  have "category_of t =
     (if \<exists>w \<in> set local_words. \<exists>pre post. lower t = pre @ w @ post then ''Local News''
      else if \<exists>w \<in> set sports_words. \<exists>pre post. lower t = pre @ w @ post then ''Sports''
      else if \<exists>w \<in> set business_words. \<exists>pre post. lower t = pre @ w @ post then ''Business''
      else ''Other'')"
    unfolding category_of_def Let_def any_word_in_substring by (rule refl)
  moreover have "category_of ''Avengers Endgame breaks records'' = ''Sports''" by code_simp
  moreover have "category_of ''The big game breaks records'' = ''Sports''" by code_simp
  moreover have "category_of ''High velocity winds expected'' = ''Local News''" by code_simp
  moreover have "category_of ''Winds expected in the city'' = ''Local News''" by code_simp
  ultimately show ?thesis by blast
qed

theorem keyword_match_is_substring_witness:
  "(\<exists>w \<in> set sports_words. \<exists>pre post. lower ''Avengers Endgame breaks records'' = pre @ w @ post)
   \<and> \<not> (\<exists>w \<in> set local_words. \<exists>pre post. lower ''Avengers Endgame breaks records'' = pre @ w @ post)"
proof -
  have c: "category_of ''Avengers Endgame breaks records'' = ''Sports''" by code_simp
  have d: "''Local News'' \<noteq> ''Sports''" "''Business'' \<noteq> ''Sports''" "''Other'' \<noteq> ''Sports''"
    by simp_all
  from keyword_match_is_substring [of "''Avengers Endgame breaks records''"]
  have "''Sports'' =
     (if \<exists>w \<in> set local_words. \<exists>pre post. lower ''Avengers Endgame breaks records'' = pre @ w @ post then ''Local News''
      else if \<exists>w \<in> set sports_words. \<exists>pre post. lower ''Avengers Endgame breaks records'' = pre @ w @ post then ''Sports''
      else if \<exists>w \<in> set business_words. \<exists>pre post. lower ''Avengers Endgame breaks records'' = pre @ w @ post then ''Business''
      else ''Other'')"
    by (simp only: c)
  then show ?thesis
    using d by (metis (lifting))
qed

section \<open>Properties of link extraction\<close>

lemma strip_ends:
  assumes "strip s \<noteq> []"
  shows "\<not> isspace (hd (strip s))" and "\<not> isspace (last (strip s))"
proof -
  let ?a = "dropWhile isspace s"
  let ?b = "dropWhile isspace (rev ?a)"
  have b: "?b \<noteq> []" using assms by (simp add: strip_def)
  then have hb: "\<not> isspace (hd ?b)" by (rule hd_dropWhile)
  then show "\<not> isspace (last (strip s))"
    using b by (simp add: strip_def last_rev)
  have a: "?a \<noteq> []" using b by (cases "?a") simp_all
  then have ha: "\<not> isspace (hd ?a)" by (rule hd_dropWhile)
  have "rev ?a = takeWhile isspace (rev ?a) @ ?b" by simp
  then have "?a = rev ?b @ rev (takeWhile isspace (rev ?a))"
    by (metis rev_append rev_rev_ident)
  then have "hd ?a = hd (rev ?b)" using b by (metis hd_append2 rev_is_Nil_conv)
  then show "\<not> isspace (hd (strip s))" using ha by (simp add: strip_def)
qed

lemma strip_id:
  assumes "s = [] \<or> (\<not> isspace (hd s) \<and> \<not> isspace (last s))"
  shows "strip s = s"
proof (cases "s = []")
  case True
  then show ?thesis by (simp add: strip_def)
next
  case False
  with assms have h: "\<not> isspace (hd s)" and l: "\<not> isspace (last s)" by auto
  have 1: "dropWhile isspace s = s" using False h by (cases s) auto
  have "hd (rev s) = last s" using False by (simp add: hd_rev)
  moreover have "rev s \<noteq> []" using False by simp
  ultimately have 2: "dropWhile isspace (rev s) = rev s" using l by (simp add: dropWhile_eq_self_iff)
  show ?thesis by (simp add: strip_def 1 2)
qed

lemma concat_ends:
  assumes "\<forall>x\<in>set xs. x \<noteq> [] \<and> \<not> P (hd x) \<and> \<not> P (last x)"
  shows "concat xs = [] \<or> (\<not> P (hd (concat xs)) \<and> \<not> P (last (concat xs)))"
  using assms
proof (induction xs)
  case Nil
  then show ?case by simp
next
  case (Cons x xs)
  then have x: "x \<noteq> []" "\<not> P (hd x)" "\<not> P (last x)" by auto
  from Cons have IH: "concat xs = [] \<or> (\<not> P (hd (concat xs)) \<and> \<not> P (last (concat xs)))" by auto
  show ?case
  proof (cases "concat xs = []")
    case True
    then show ?thesis using x by simp
  next
    case False
    with IH have c: "\<not> P (hd (concat xs))" "\<not> P (last (concat xs))" by blast+
    have "hd (concat (x # xs)) = hd x" using x by simp
    moreover have "last (concat (x # xs)) = last (concat xs)"
      using last_appendR [OF False, of x] by simp
    ultimately show ?thesis using x c by simp
  qed
qed

lemma strip_get_text_strip: "strip (get_text_strip el) = get_text_strip el"
proof -
  have "\<forall>x\<in>set (filter (\<lambda>s. s \<noteq> []) (map strip el)). x \<noteq> [] \<and> \<not> isspace (hd x) \<and> \<not> isspace (last x)"
    using strip_ends by auto
  then show ?thesis
    unfolding get_text_strip_def by (intro strip_id concat_ends)
qed

lemma link_step_cases:
  "link_step m (arts, seen) l =
     (if is_news_href (href l) \<and> full_url_of (href l) \<notin> seen \<and> int (length arts) < m
         \<and> 10 < length (get_text_strip (link_texts l))
      then (arts @ [candidate l], insert (full_url_of (href l)) seen)
      else (arts, seen))"
proof -
  have "href l = [] \<Longrightarrow> \<not> is_news_href (href l)"
    by (simp add: is_news_href_def lower_def)
  then show ?thesis
    by (auto simp: link_step_def candidate_def Let_def)
qed

lemma link_loop_seen:
  "seen = set (map url arts) \<Longrightarrow>
   snd (foldl (link_step m) (arts, seen) links) = set (map url (fst (foldl (link_step m) (arts, seen) links)))"
proof (induction links arbitrary: arts seen)
  case Nil
  then show ?case by simp
next
  case (Cons l links)
  show ?case
  proof (cases "link_step m (arts, seen) l = (arts, seen)")
    case True
    then show ?thesis using Cons.IH [OF Cons.prems] by simp
  next
    case False
    then have st: "link_step m (arts, seen) l = (arts @ [candidate l], insert (full_url_of (href l)) seen)"
      by (simp add: link_step_cases split: if_splits)
    have "insert (full_url_of (href l)) seen = set (map url (arts @ [candidate l]))"
      using Cons.prems by (simp add: candidate_def)
    then show ?thesis
      using Cons.IH [of "insert (full_url_of (href l)) seen" "arts @ [candidate l]"] st by simp
  qed
qed

lemma extract_links_snoc_state:
  "foldl (link_step m) ([], {}) links = (extract_links m links, set (map url (extract_links m links)))"
  using link_loop_seen [of "{}" "[]" m links]
  by (simp add: extract_links_def prod_eq_iff)

lemma extract_links_snoc:
  "extract_links m (pre @ [l]) =
     (if accepts m (extract_links m pre) l then extract_links m pre @ [candidate l]
      else extract_links m pre)"
proof -
  have "extract_links m (pre @ [l]) = fst (link_step m (foldl (link_step m) ([], {}) pre) l)"
    by (simp add: extract_links_def)
  also have "\<dots> = fst (link_step m (extract_links m pre, set (map url (extract_links m pre))) l)"
    by (simp only: extract_links_snoc_state)
  finally show ?thesis
    by (simp add: link_step_cases accepts_def strip_get_text_strip)
qed

lemma extract_links_Nil: "extract_links m [] = []"
  by (simp add: extract_links_def)

lemma extract_links_length: "length (extract_links m links) \<le> nat m"
proof (induction links rule: rev_induct)
  case Nil
  show ?case by (simp add: extract_links_Nil)
next
  case (snoc l links)
  then show ?case by (auto simp: extract_links_snoc accepts_def)
qed

lemma extract_links_distinct: "distinct (map url (extract_links m links))"
proof (induction links rule: rev_induct)
  case Nil
  show ?case by (simp add: extract_links_Nil)
next
  case (snoc l links)
  then show ?case by (auto simp: extract_links_snoc accepts_def candidate_def)
qed

lemma extract_links_titles:
  "list_all (\<lambda>a. 10 < length (strip (title a))) (extract_links m links)"
proof (induction links rule: rev_induct)
  case Nil
  show ?case by (simp add: extract_links_Nil)
next
  case (snoc l links)
  then show ?case by (auto simp: extract_links_snoc accepts_def candidate_def)
qed

lemma extract_links_subseq:
  "subseq (extract_links m links) (map candidate (filter (\<lambda>l. is_news_href (href l)) links))"
proof (induction links rule: rev_induct)
  case Nil
  show ?case by (simp add: extract_links_Nil)
next
  case (snoc l links)
  show ?case
  proof (cases "accepts m (extract_links m links) l")
    case True
    then have "is_news_href (href l)" by (simp add: accepts_def)
    then show ?thesis using snoc True
      by (simp add: extract_links_snoc list_emb_append_mono)
  next
    case False
    then show ?thesis using snoc
      by (auto simp: extract_links_snoc intro: subseq_rev_drop_many)
  qed
qed

lemma extract_links_prefix:
  "prefix (extract_links m pre) (extract_links m (pre @ post))"
proof (induction post rule: rev_induct)
  case Nil
  show ?case by simp
next
  case (snoc l post)
  have "prefix (extract_links m (pre @ post)) (extract_links m ((pre @ post) @ [l]))"
    by (simp only: extract_links_snoc) simp
  with snoc show ?case by (metis append.assoc prefix_order.trans)
qed

lemma extract_links_origin:
  assumes "a \<in> set (extract_links m links)"
  shows "\<exists>l \<in> set links. is_news_href (href l) \<and> a = candidate l"
proof -
  from extract_links_subseq [of m links] assms
  obtain b where "b \<in> set (map candidate (filter (\<lambda>l. is_news_href (href l)) links))" and "a = b"
    by (rule list_emb_set)
  then show ?thesis by auto
qed

lemma extract_links_order:
  "subseq (extract_links m links) (map candidate links)"
proof -
  have "subseq (map candidate (filter (\<lambda>l. is_news_href (href l)) links)) (map candidate links)"
    by (intro subseq_map subseq_filter_left)
  with extract_links_subseq [of m links] show ?thesis
    by (rule subseq_order.trans)
qed

text \<open>
  C3. For every list of anchors and every \<^verbatim>\<open>max_count\<close>, link extraction returns at most
  \<^verbatim>\<open>max_count\<close> entries (none when \<^verbatim>\<open>max_count\<close> is not positive), no two entries have
  the same URL, and the title of every entry is longer than 10 characters after
  trimming. The entries are candidates of anchors of the document in the order of the
  document, and reading more of the document only adds entries at the end. The anchor
  that is read next is accepted exactly when its \<^verbatim>\<open>href\<close> has a path marker, its resolved
  URL is not yet among the entries, the cap is not reached, and its trimmed text is
  longer than 10 characters.
\<close>

theorem link_extraction:
  "length (extract_links max_count links) \<le> nat max_count
   \<and> distinct (map url (extract_links max_count links))
   \<and> list_all (\<lambda>a. 10 < length (strip (title a))) (extract_links max_count links)
   \<and> subseq (extract_links max_count links) (map candidate links)
   \<and> prefix (extract_links max_count pre) (extract_links max_count (pre @ post))
   \<and> extract_links max_count (pre @ [link])
     = (if accepts max_count (extract_links max_count pre) link
        then extract_links max_count pre @ [candidate link]
        else extract_links max_count pre)"
  using extract_links_length [of max_count links] extract_links_distinct [of max_count links]
    extract_links_titles [of max_count links] extract_links_order [of max_count links]
    extract_links_prefix [of max_count pre post] extract_links_snoc [of max_count pre link]
  by blast

theorem link_extraction_witness:
  "extract_links 2 [story_link, short_link, story_link, absolute_link, relative_link]
     = [candidate story_link, candidate absolute_link]
   \<and> length (extract_links 2 [story_link, short_link, story_link, absolute_link, relative_link]) \<le> 2
   \<and> accepts 2 (extract_links 2 []) story_link
   \<and> extract_links 2 ([] @ [story_link]) = extract_links 2 [] @ [candidate story_link]"
proof -
  have a: "extract_links 2 [story_link, short_link, story_link, absolute_link, relative_link]
     = [candidate story_link, candidate absolute_link]"
    by code_simp
  have b: "accepts 2 (extract_links 2 []) story_link"
    by code_simp
  from link_extraction [of 2 "[story_link, short_link, story_link, absolute_link, relative_link]" "[]" "[]" story_link]
  have c: "length (extract_links 2 [story_link, short_link, story_link, absolute_link, relative_link]) \<le> nat 2"
    and d: "extract_links 2 ([] @ [story_link])
     = (if accepts 2 (extract_links 2 []) story_link
        then extract_links 2 [] @ [candidate story_link]
        else extract_links 2 [])"
    by blast+
  from d b have "extract_links 2 ([] @ [story_link]) = extract_links 2 [] @ [candidate story_link]"
    by (simp only: if_True)
  with a b c show ?thesis by simp
qed

text \<open>
  C4. Every URL that link extraction returns should be absolute. The code resolves an
  \<^verbatim>\<open>href\<close> with a leading slash by putting the base URL before it, and the result is an
  absolute URL. It misses the \<^verbatim>\<open>href\<close> that is a relative path without a leading slash:
  the other branch takes it for the full URL as it is, so for the anchor with the
  \<^verbatim>\<open>href\<close> \<^verbatim>\<open>section/news/index.html\<close> the URL of the entry is that relative path, which is
  not an absolute URL.
\<close>

theorem relative_href_not_resolved:
  "extract_links 10 [story_link, relative_link]
     = [\<lparr>title = ''City council voteson new budget'',
         url = ''https://www.dispatch.com/story/news/2025/01/01/city-council-vote'',
         content = []\<rparr>,
        \<lparr>title = ''Today in local news'', url = ''section/news/index.html'', content = []\<rparr>]
   \<and> is_absolute_url ''https://www.dispatch.com/story/news/2025/01/01/city-council-vote''
   \<and> is_news_href ''section/news/index.html''
   \<and> full_url_of ''section/news/index.html'' = ''section/news/index.html''
   \<and> \<not> is_absolute_url ''section/news/index.html''"
  by code_simp

section \<open>Properties of content extraction\<close>

lemma first_selected_find:
  "first_selected s selectors =
     (case find (\<lambda>selector. select s selector \<noteq> []) selectors of
        None \<Rightarrow> []
      | Some selector \<Rightarrow> strategy_text s selector)"
  by (induction selectors) (simp_all add: strategy_text_def Let_def)

lemma extract_content_strategies:
  "extract_content s =
     take 2000
       (case first_strategy s of
          None \<Rightarrow> paragraph_text s
        | Some selector \<Rightarrow>
            if strategy_text s selector \<noteq> [] then strategy_text s selector
            else paragraph_text s)"
  by (simp add: extract_content_def first_selected_find first_strategy_def paragraph_text_def
      Let_def split: option.splits)

lemma no_strategy:
  "list_all (\<lambda>selector. select s selector = []) content_selectors \<Longrightarrow> first_strategy s = None"
  by (simp add: first_strategy_def find_None_iff list_all_iff)

text \<open>
  C5, as the code has it. Content extraction takes the first selector strategy that
  yields an element and joins the trimmed texts of its elements with single spaces. When
  that text is empty, or when no strategy yields an element, it takes the trimmed texts of
  the first 10 paragraphs of the document, joined with single spaces, in its place. The
  result is cut to 2000 characters.
\<close>

theorem content_extraction:
  "extract_content s =
     take 2000
       (case first_strategy s of
          None \<Rightarrow> paragraph_text s
        | Some selector \<Rightarrow>
            if strategy_text s selector \<noteq> [] then strategy_text s selector
            else paragraph_text s)
   \<and> (list_all (\<lambda>selector. select s selector = []) content_selectors \<longrightarrow>
        extract_content s = take 2000 (join '' '' (map get_text_strip (take 10 (find_all_p s)))))
   \<and> (first_strategy s = Some selector \<and> strategy_text s selector \<noteq> [] \<longrightarrow>
        extract_content s = take 2000 (join '' '' (map get_text_strip (select s selector))))"
proof -
  have "list_all (\<lambda>selector. select s selector = []) content_selectors \<longrightarrow>
        extract_content s = take 2000 (join '' '' (map get_text_strip (take 10 (find_all_p s))))"
    using no_strategy [of s] by (auto simp: extract_content_strategies paragraph_text_def)
  moreover have "first_strategy s = Some selector \<and> strategy_text s selector \<noteq> [] \<longrightarrow>
        extract_content s = take 2000 (join '' '' (map get_text_strip (select s selector)))"
    by (auto simp: extract_content_strategies strategy_text_def)
  ultimately show ?thesis
    using extract_content_strategies [of s] by blast
qed

theorem content_extraction_witness:
  "list_all (\<lambda>selector. select (empty_body_page\<lparr>select := (\<lambda>selector. [])\<rparr>) selector = [])
     content_selectors
   \<and> extract_content (empty_body_page\<lparr>select := (\<lambda>selector. [])\<rparr>) = ''Hello world''"
proof -
  have a: "list_all (\<lambda>selector. select (empty_body_page\<lparr>select := (\<lambda>selector. [])\<rparr>) selector = [])
     content_selectors"
    by (simp add: content_selectors_def)
  have b: "take 2000 (join '' '' (map get_text_strip
             (take 10 (find_all_p (empty_body_page\<lparr>select := (\<lambda>selector. [])\<rparr>))))) = ''Hello world''"
    by code_simp
  from content_extraction [of "empty_body_page\<lparr>select := (\<lambda>selector. [])\<rparr>"] a
  have "extract_content (empty_body_page\<lparr>select := (\<lambda>selector. [])\<rparr>)
        = take 2000 (join '' '' (map get_text_strip
            (take 10 (find_all_p (empty_body_page\<lparr>select := (\<lambda>selector. [])\<rparr>)))))"
    by blast
  with a b show ?thesis by simp
qed

text \<open>
  The claim C5 as it is stated fails for a page whose first matching strategy yields an
  element without text: the claim has the text of that strategy, which is empty, as the
  result, and the code returns the text of the paragraphs.
\<close>

theorem empty_body_counterexample:
  "select empty_body_page ''div.article-body'' = [[]]
   \<and> first_strategy empty_body_page = Some ''div.article-body''
   \<and> join '' '' (map get_text_strip (select empty_body_page ''div.article-body'')) = []
   \<and> extract_content empty_body_page = ''Hello world''"
  by code_simp

lemma extract_content_length: "length (extract_content s) \<le> 2000"
  by (simp add: extract_content_strategies)

lemma get_article_content_length: "length (fst (get_article_content w u)) \<le> 2000"
  by (simp add: get_article_content_def extract_content_length split: sum.splits)

lemma fill_contents_length:
  "list_all (\<lambda>a. length (content a) \<le> 2000) (fst (fill_contents w as))"
proof (induction as)
  case Nil
  show ?case by simp
next
  case (Cons a as)
  obtain c evs where g: "get_article_content w (url a) = (c, evs)"
    by (cases "get_article_content w (url a)")
  obtain as' evs' where f: "fill_contents w as = (as', evs')"
    by (cases "fill_contents w as")
  have "length c \<le> 2000"
    using get_article_content_length [of w "url a"] g by simp
  moreover have "list_all (\<lambda>a. length (content a) \<le> 2000) as'"
    using Cons.IH f by simp
  ultimately show ?case by (simp add: g f)
qed

lemma scrape_articles_length:
  "list_all (\<lambda>a. length (content a) \<le> 2000) (fst (scrape_articles w m))"
proof (cases "fetch_soup w base_url")
  case (Inl e)
  then show ?thesis by (simp add: scrape_articles_def)
next
  case (Inr s)
  obtain as evs where f: "fill_contents w (extract_links m (find_all_a s)) = (as, evs)"
    by (cases "fill_contents w (extract_links m (find_all_a s))")
  then have "list_all (\<lambda>a. length (content a) \<le> 2000) as"
    using fill_contents_length [of w "extract_links m (find_all_a s)"] by simp
  then show ?thesis by (simp add: scrape_articles_def Inr f)
qed

lemma fetch_soup_failures:
  "(http_get w u = Inl e \<longrightarrow> fetch_soup w u = Inl e)
   \<and> (http_get w u = Inr r \<and> 400 \<le> status_code r \<and> status_code r < 600 \<longrightarrow>
        fetch_soup w u = Inl HTTPError)
   \<and> (http_get w u = Inr r \<and> \<not> (400 \<le> status_code r \<and> status_code r < 600) \<longrightarrow>
        fetch_soup w u = decoded r)"
  by (simp add: fetch_soup_def and_then_def raise_for_status_def)

text \<open>
  C6. For every URL and whatever the fetch does, content extraction returns a text of at
  most 2000 characters. When the request raises, when the status is an error status, or
  when the parser raises, it logs the error and returns the empty text. So the content of
  every article that \<^verbatim>\<open>scrape_articles\<close> returns has at most 2000 characters.
\<close>

theorem content_bounded:
  "length (fst (get_article_content w u)) \<le> 2000
   \<and> (fetch_soup w u = Inl e \<longrightarrow>
        get_article_content w u = ([], [Get u 10, Log ERROR ''Error getting article content'']))
   \<and> (http_get w u = Inl e \<longrightarrow> fst (get_article_content w u) = [])
   \<and> (http_get w u = Inr r \<and> 400 \<le> status_code r \<and> status_code r < 600 \<longrightarrow>
        fst (get_article_content w u) = [])
   \<and> (http_get w u = Inr r \<and> decoded r = Inl e \<longrightarrow> fst (get_article_content w u) = [])
   \<and> list_all (\<lambda>a. length (content a) \<le> 2000) (fst (scrape_articles w max_articles))"
proof -
  have f: "fetch_soup w u = Inl x \<Longrightarrow> fst (get_article_content w u) = []" for x
    by (simp add: get_article_content_def)
  have "fetch_soup w u = Inl e \<longrightarrow>
        get_article_content w u = ([], [Get u 10, Log ERROR ''Error getting article content''])"
    by (simp add: get_article_content_def)
  moreover have "http_get w u = Inl e \<longrightarrow> fst (get_article_content w u) = []"
    using fetch_soup_failures [of w u e] f by blast
  moreover have "http_get w u = Inr r \<and> 400 \<le> status_code r \<and> status_code r < 600 \<longrightarrow>
        fst (get_article_content w u) = []"
    using fetch_soup_failures [of w u _ r] f by blast
  moreover have "http_get w u = Inr r \<and> decoded r = Inl e \<longrightarrow> fst (get_article_content w u) = []"
    using fetch_soup_failures [of w u _ r] f by (metis (full_types))
  ultimately show ?thesis
    using get_article_content_length [of w u] scrape_articles_length [of w max_articles] by blast
qed

theorem content_bounded_witness:
  "fetch_soup offline_world ''https://www.dispatch.com/story/one'' = Inl RequestException
   \<and> get_article_content offline_world ''https://www.dispatch.com/story/one''
     = ([], [Get ''https://www.dispatch.com/story/one'' 10, Log ERROR ''Error getting article content''])"
proof -
  have a: "fetch_soup offline_world ''https://www.dispatch.com/story/one'' = Inl RequestException"
    by (simp add: fetch_soup_def offline_world_def and_then_def)
  with content_bounded [of offline_world "''https://www.dispatch.com/story/one''" RequestException]
  show ?thesis by blast
qed

section \<open>Properties of the summarizer\<close>

lemma getitem_Name:
  "member v k = Some x \<Longrightarrow> getitem v (Name k) = Inr x"
  "member v k = None \<Longrightarrow> \<exists>e. getitem v (Name k) = Inl e"
  by (cases v; simp)+

lemma getitem_first:
  "first_item v = Some x \<Longrightarrow> getitem v (Index 0) = Inr x"
  by (cases v rule: first_item.cases) simp_all

lemma getitem_no_first:
  "first_item v = None \<Longrightarrow>
   (\<exists>e. getitem v (Index 0) = Inl e) \<or> (\<exists>c. getitem v (Index 0) = Inr (JString [c]))"
  by (cases v rule: first_item.cases) auto

lemma subscripts_content:
  "reply_content reply = Some c \<Longrightarrow> subscripts reply = Inr c"
  by (auto simp: reply_content_def subscripts_def and_then_def getitem_Name(1) getitem_first
      split: Option.bind_splits)

lemma subscripts_raise:
  assumes "reply_content reply = None"
  shows "\<exists>e. subscripts reply = Inl e"
proof (cases "member reply ''choices''")
  case None
  then show ?thesis
    using getitem_Name(2) [of reply "''choices''"] by (auto simp: subscripts_def and_then_def)
next
  case (Some choices)
  then have c: "getitem reply (Name ''choices'') = Inr choices"
    by (simp add: getitem_Name(1))
  show ?thesis
  proof (cases "first_item choices")
    case None
    then consider e where "getitem choices (Index 0) = Inl e"
      | ch where "getitem choices (Index 0) = Inr (JString [ch])"
      using getitem_no_first by blast
    then show ?thesis
      by cases (simp_all add: subscripts_def and_then_def c)
  next
    case (Some choice)
    then have f: "getitem choices (Index 0) = Inr choice"
      by (rule getitem_first)
    show ?thesis
    proof (cases "member choice ''message''")
      case None
      then show ?thesis
        using getitem_Name(2) [of choice "''message''"]
        by (auto simp: subscripts_def and_then_def c f)
    next
      case (Some message)
      then have m: "getitem choice (Name ''message'') = Inr message"
        by (simp add: getitem_Name(1))
      have "member message ''content'' = None"
        using assms \<open>member reply ''choices'' = Some choices\<close> \<open>first_item choices = Some choice\<close> Some
        by (simp add: reply_content_def)
      then show ?thesis
        using getitem_Name(2) [of message "''content''"]
        by (auto simp: subscripts_def and_then_def c f m)
    qed
  qed
qed

lemma chat_completion_subscripts:
  "chat_completion w prompt timeout =
     and_then (http_post w prompt timeout) (\<lambda>response.
     and_then (raise_for_status response) (\<lambda>_.
     and_then (decoded response) subscripts))"
  by (simp add: chat_completion_def)

lemma call_raises_chat_completion:
  assumes "call_raises (http_post w prompt timeout)"
  shows "\<exists>e. chat_completion w prompt timeout = Inl e"
proof (cases "http_post w prompt timeout")
  case (Inl e)
  then show ?thesis by (simp add: chat_completion_subscripts and_then_def)
next
  case (Inr r)
  show ?thesis
  proof (cases "400 \<le> status_code r \<and> status_code r < 600")
    case True
    then show ?thesis
      by (simp add: chat_completion_subscripts and_then_def Inr raise_for_status_def)
  next
    case False
    with assms Inr have m: "malformed r" by (simp add: call_raises_def)
    show ?thesis
    proof (cases "decoded r")
      case (Inl e)
      then show ?thesis
        using False by (simp add: chat_completion_subscripts and_then_def Inr raise_for_status_def)
    next
      case (Inr reply)
      with m have "reply_content reply = None" by (simp add: malformed_def)
      then obtain e where "subscripts reply = Inl e" using subscripts_raise by blast
      then show ?thesis
        using False Inr \<open>http_post w prompt timeout = Inr r\<close>
        by (simp add: chat_completion_subscripts and_then_def raise_for_status_def)
    qed
  qed
qed

lemma chat_completion_call_raises:
  assumes "chat_completion w prompt timeout = Inl e"
  shows "call_raises (http_post w prompt timeout)"
proof (rule ccontr)
  assume n: "\<not> call_raises (http_post w prompt timeout)"
  then obtain r where r: "http_post w prompt timeout = Inr r"
    and s: "\<not> (400 \<le> status_code r \<and> status_code r < 600)" and m: "\<not> malformed r"
    by (auto simp: call_raises_def split: sum.splits)
  from m obtain reply c where "decoded r = Inr reply" "reply_content reply = Some c"
    by (auto simp: malformed_def split: sum.splits)
  then have "chat_completion w prompt timeout = Inr c"
    using r s by (simp add: chat_completion_subscripts and_then_def raise_for_status_def subscripts_content)
  with assms show False by simp
qed

lemma three_attempts: "[0..<3] = [0, 1, 2]"
  by (simp add: upt_rec)

lemma all_attempts_fail:
  assumes "chat_completion w prompt 30 = Inl e1"
    and "chat_completion w prompt 45 = Inl e2"
    and "chat_completion w prompt 60 = Inl e3"
  shows "attempt_loop w prompt [0..<3] =
     (None,
      [Log INFO ''Attempting DeepSeek API call'', Post prompt 30, failure_log e1, Sleep 5,
       Log INFO ''Attempting DeepSeek API call'', Post prompt 45, failure_log e2, Sleep 5,
       Log INFO ''Attempting DeepSeek API call'', Post prompt 60, failure_log e3])"
  using assms by (simp add: three_attempts Let_def)

lemma failure_log_is_log: "is_log (failure_log e)"
  by (simp add: failure_log_def)

text \<open>
  C1, as the code has it. When every call to the chat completion endpoint fails in a way
  the code treats as a failure (the request raises a timeout or another error, the status
  is a 4xx or 5xx code, or the response is malformed), summarization makes exactly 3
  attempts, with the timeouts 30, 45 and 60 seconds, sleeps 5 seconds after the first and
  after the second attempt and not after the third, and returns the fallback summary.
  The three failures are logged, and none of them reaches the caller.
\<close>

theorem summarize_retries_then_falls_back:
  assumes "call_raises (http_post w (user_prompt articles) 30)"
    and "call_raises (http_post w (user_prompt articles) 45)"
    and "call_raises (http_post w (user_prompt articles) 60)"
  shows "fst (summarize_with_deepseek w articles)
           = JString (create_fallback_summary (today w) articles)
         \<and> filter (\<lambda>ev. \<not> is_log ev) (snd (summarize_with_deepseek w articles))
           = [Post (user_prompt articles) 30, Sleep 5,
              Post (user_prompt articles) 45, Sleep 5,
              Post (user_prompt articles) 60]
         \<and> (\<exists>e1 e2 e3. snd (summarize_with_deepseek w articles)
             = [Log INFO ''Attempting DeepSeek API call'', Post (user_prompt articles) 30,
                failure_log e1, Sleep 5,
                Log INFO ''Attempting DeepSeek API call'', Post (user_prompt articles) 45,
                failure_log e2, Sleep 5,
                Log INFO ''Attempting DeepSeek API call'', Post (user_prompt articles) 60,
                failure_log e3,
                Log WARNING ''All DeepSeek API attempts failed, creating basic summary from titles''])"
proof -
  from assms(1) obtain e1 where "chat_completion w (user_prompt articles) 30 = Inl e1"
    using call_raises_chat_completion by blast
  moreover from assms(2) obtain e2 where "chat_completion w (user_prompt articles) 45 = Inl e2"
    using call_raises_chat_completion by blast
  moreover from assms(3) obtain e3 where "chat_completion w (user_prompt articles) 60 = Inl e3"
    using call_raises_chat_completion by blast
  ultimately have l: "attempt_loop w (user_prompt articles) [0..<3] =
     (None,
      [Log INFO ''Attempting DeepSeek API call'', Post (user_prompt articles) 30, failure_log e1, Sleep 5,
       Log INFO ''Attempting DeepSeek API call'', Post (user_prompt articles) 45, failure_log e2, Sleep 5,
       Log INFO ''Attempting DeepSeek API call'', Post (user_prompt articles) 60, failure_log e3])"
    by (rule all_attempts_fail)
  have s: "summarize_with_deepseek w articles =
     (JString (create_fallback_summary (today w) articles),
      [Log INFO ''Attempting DeepSeek API call'', Post (user_prompt articles) 30, failure_log e1, Sleep 5,
       Log INFO ''Attempting DeepSeek API call'', Post (user_prompt articles) 45, failure_log e2, Sleep 5,
       Log INFO ''Attempting DeepSeek API call'', Post (user_prompt articles) 60, failure_log e3,
       Log WARNING ''All DeepSeek API attempts failed, creating basic summary from titles''])"
    unfolding summarize_with_deepseek_def l by simp
  have "filter (\<lambda>ev. \<not> is_log ev) (snd (summarize_with_deepseek w articles))
           = [Post (user_prompt articles) 30, Sleep 5,
              Post (user_prompt articles) 45, Sleep 5,
              Post (user_prompt articles) 60]"
    unfolding s by (simp add: failure_log_is_log)
  moreover have "fst (summarize_with_deepseek w articles)
           = JString (create_fallback_summary (today w) articles)"
    unfolding s by simp
  moreover have "\<exists>e1 e2 e3. snd (summarize_with_deepseek w articles)
             = [Log INFO ''Attempting DeepSeek API call'', Post (user_prompt articles) 30,
                failure_log e1, Sleep 5,
                Log INFO ''Attempting DeepSeek API call'', Post (user_prompt articles) 45,
                failure_log e2, Sleep 5,
                Log INFO ''Attempting DeepSeek API call'', Post (user_prompt articles) 60,
                failure_log e3,
                Log WARNING ''All DeepSeek API attempts failed, creating basic summary from titles'']"
    unfolding s snd_conv by (rule exI)+ (rule refl)
  ultimately show ?thesis
    by (intro conjI)
qed

theorem summarize_retries_then_falls_back_witness:
  "call_raises (http_post failing_endpoint_world (user_prompt [sample_article]) 30)
   \<and> call_raises (http_post failing_endpoint_world (user_prompt [sample_article]) 45)
   \<and> call_raises (http_post failing_endpoint_world (user_prompt [sample_article]) 60)
   \<and> fst (summarize_with_deepseek failing_endpoint_world [sample_article])
     = JString (create_fallback_summary ''January 01, 2025'' [sample_article])
   \<and> filter (\<lambda>ev. \<not> is_log ev) (snd (summarize_with_deepseek failing_endpoint_world [sample_article]))
     = [Post (user_prompt [sample_article]) 30, Sleep 5,
        Post (user_prompt [sample_article]) 45, Sleep 5,
        Post (user_prompt [sample_article]) 60]"
proof -
  have p: "http_post failing_endpoint_world = failing_endpoint"
    and t: "today failing_endpoint_world = ''January 01, 2025''"
    by (simp_all add: failing_endpoint_world_def offline_world_def)
  have a: "call_raises (http_post failing_endpoint_world (user_prompt [sample_article]) 30)"
    and b: "call_raises (http_post failing_endpoint_world (user_prompt [sample_article]) 45)"
    and c: "call_raises (http_post failing_endpoint_world (user_prompt [sample_article]) 60)"
    unfolding p
    by (simp_all add: failing_endpoint_def call_raises_def malformed_def reply_content_def)
  from summarize_retries_then_falls_back [OF a b c]
  have "fst (summarize_with_deepseek failing_endpoint_world [sample_article])
     = JString (create_fallback_summary (today failing_endpoint_world) [sample_article])"
    and "filter (\<lambda>ev. \<not> is_log ev) (snd (summarize_with_deepseek failing_endpoint_world [sample_article]))
     = [Post (user_prompt [sample_article]) 30, Sleep 5,
        Post (user_prompt [sample_article]) 45, Sleep 5,
        Post (user_prompt [sample_article]) 60]"
    by blast+
  then show ?thesis
    unfolding t using a b c by (intro conjI)
qed

text \<open>
  The claim C1 as it is stated fails for an endpoint that answers with a status outside
  the 2xx codes that is no error status, and a well-formed reply: every call fails in
  the sense of the claim, and the code makes one attempt and returns the content of the
  reply.
\<close>

theorem multiple_choices_counterexample:
  "call_fails (http_post multiple_choices_world (user_prompt [sample_article]) 30)
   \<and> call_fails (http_post multiple_choices_world (user_prompt [sample_article]) 45)
   \<and> call_fails (http_post multiple_choices_world (user_prompt [sample_article]) 60)
   \<and> summarize_with_deepseek multiple_choices_world [sample_article]
     = (JString ''Good morning!'',
        [Log INFO ''Attempting DeepSeek API call'', Post (user_prompt [sample_article]) 30,
         Log INFO ''Successfully generated summary with DeepSeek API''])"
proof -
  have p: "http_post multiple_choices_world =
           (\<lambda>prompt timeout. Inr \<lparr>status_code = 300, decoded = Inr good_reply\<rparr>)"
    by (simp add: multiple_choices_world_def offline_world_def)
  have c: "chat_completion multiple_choices_world prompt timeout = Inr (JString ''Good morning!'')"
    for prompt timeout
    by (simp add: chat_completion_def subscripts_def p and_then_def raise_for_status_def good_reply_def)
  have "summarize_with_deepseek multiple_choices_world [sample_article]
     = (JString ''Good morning!'',
        [Log INFO ''Attempting DeepSeek API call'', Post (user_prompt [sample_article]) 30,
         Log INFO ''Successfully generated summary with DeepSeek API''])"
    by (simp add: summarize_with_deepseek_def three_attempts c Let_def)
  moreover have "call_fails (http_post multiple_choices_world prompt timeout)" for prompt timeout
    by (simp add: p call_fails_def)
  ultimately show ?thesis by (intro conjI)
qed

section \<open>Properties of the entry point\<close>

lemma get_article_content_events:
  "\<not> list_ex is_post_or_send (snd (get_article_content w u))"
  by (simp add: get_article_content_def split: sum.splits)

lemma fill_contents_events:
  "\<not> list_ex is_post_or_send (snd (fill_contents w as))"
proof (induction as)
  case Nil
  show ?case by simp
next
  case (Cons a as)
  obtain c evs where g: "get_article_content w (url a) = (c, evs)"
    by (cases "get_article_content w (url a)")
  obtain as' evs' where f: "fill_contents w as = (as', evs')"
    by (cases "fill_contents w as")
  have "\<not> list_ex is_post_or_send evs"
    using get_article_content_events [of w "url a"] g by simp
  moreover have "\<not> list_ex is_post_or_send evs'"
    using Cons.IH f by simp
  ultimately show ?case by (simp add: g f)
qed

lemma scrape_articles_events:
  "\<not> list_ex is_post_or_send (snd (scrape_articles w m))"
proof (cases "fetch_soup w base_url")
  case (Inl e)
  then show ?thesis by (simp add: scrape_articles_def)
next
  case (Inr s)
  obtain as evs where f: "fill_contents w (extract_links m (find_all_a s)) = (as, evs)"
    by (cases "fill_contents w (extract_links m (find_all_a s))")
  then have "\<not> list_ex is_post_or_send evs"
    using fill_contents_events [of w "extract_links m (find_all_a s)"] by simp
  then show ?thesis by (simp add: scrape_articles_def Inr f)
qed

lemma run_without_articles:
  assumes "fst (scrape_articles w 10) = []"
  shows "run_daily_summary w =
           (Inr (),
            Log INFO ''Starting Columbus Dispatch morning summary...'' # snd (scrape_articles w 10)
            @ [Log WARNING ''No articles found''])"
  using assms by (cases "scrape_articles w 10") (simp add: run_daily_summary_def)

text \<open>
  C9. When \<^verbatim>\<open>scrape_articles\<close> yields the empty list, the entry point logs the warning and
  returns: after the effects of the scraping there is nothing but the warning, so no
  request goes to the chat completion endpoint and no email is sent, and no exception
  leaves the function. The renderer is called only where the email is built, on the
  other branch. A homepage fetch that fails is logged and yields the empty list, so the
  run is then the start record, the request, the error record and the warning.
\<close>

theorem no_articles_no_summary:
  "(fst (scrape_articles w 10) = [] \<longrightarrow>
      run_daily_summary w =
        (Inr (),
         Log INFO ''Starting Columbus Dispatch morning summary...'' # snd (scrape_articles w 10)
         @ [Log WARNING ''No articles found''])
      \<and> \<not> list_ex is_post_or_send (snd (run_daily_summary w)))
   \<and> (fetch_soup w base_url = Inl e \<longrightarrow>
        scrape_articles w max_articles
          = ([], [Get base_url 10, Log ERROR ''Error scraping articles''])
        \<and> run_daily_summary w =
          (Inr (),
           [Log INFO ''Starting Columbus Dispatch morning summary...'', Get base_url 10,
            Log ERROR ''Error scraping articles'', Log WARNING ''No articles found'']))"
proof -
  have a: "fst (scrape_articles w 10) = [] \<longrightarrow>
      run_daily_summary w =
        (Inr (),
         Log INFO ''Starting Columbus Dispatch morning summary...'' # snd (scrape_articles w 10)
         @ [Log WARNING ''No articles found''])
      \<and> \<not> list_ex is_post_or_send (snd (run_daily_summary w))"
    using scrape_articles_events [of w 10] by (auto simp: run_without_articles)
  have b: "fetch_soup w base_url = Inl e \<longrightarrow>
        scrape_articles w max_articles
          = ([], [Get base_url 10, Log ERROR ''Error scraping articles''])
        \<and> run_daily_summary w =
          (Inr (),
           [Log INFO ''Starting Columbus Dispatch morning summary...'', Get base_url 10,
            Log ERROR ''Error scraping articles'', Log WARNING ''No articles found''])"
    by (simp add: scrape_articles_def run_daily_summary_def)
  from a b show ?thesis by blast
qed

theorem no_articles_no_summary_witness:
  "fetch_soup offline_world base_url = Inl RequestException
   \<and> fst (scrape_articles offline_world 10) = []
   \<and> run_daily_summary offline_world =
       (Inr (),
        [Log INFO ''Starting Columbus Dispatch morning summary...'', Get base_url 10,
         Log ERROR ''Error scraping articles'', Log WARNING ''No articles found''])
   \<and> \<not> list_ex is_post_or_send (snd (run_daily_summary offline_world))"
proof -
  have f: "fetch_soup offline_world base_url = Inl RequestException"
    by (simp add: fetch_soup_def offline_world_def and_then_def)
  from no_articles_no_summary [of offline_world RequestException 10] f
  have s: "scrape_articles offline_world 10
          = ([], [Get base_url 10, Log ERROR ''Error scraping articles''])"
    and r: "run_daily_summary offline_world =
       (Inr (),
        [Log INFO ''Starting Columbus Dispatch morning summary...'', Get base_url 10,
         Log ERROR ''Error scraping articles'', Log WARNING ''No articles found''])"
    by blast+
  from s have e: "fst (scrape_articles offline_world 10) = []" by simp
  with no_articles_no_summary [of offline_world RequestException 10]
  have "\<not> list_ex is_post_or_send (snd (run_daily_summary offline_world))"
    by blast
  with f e r show ?thesis by blast
qed

end
